theory Spec2Isabelle
  imports Complex_Main "HOL-Library.List_Lexorder" "HOL-Library.Char_ord"
begin

section \<open>Tables\<close>

text \<open>
  The pipeline of \<^verbatim>\<open>pipelines/data_processing/nodes.py\<close> works on pandas tables. A table is
  a row count (the length of its index) and a list of named columns, in column order. A
  column is typed, as a pandas column is: an \<^verbatim>\<open>object\<close> column holds strings, a numeric one
  holds numbers; a missing cell (NaN) is \<open>None\<close> in both. Numbers are real numbers, so a
  cell is never an infinity. The arithmetic of the features is that of the reals; the
  quotient and the mean of the MissingValueHandler, whose results are compared and stored,
  are rounded as Python rounds them (see the section on binary floating point).

  A table is well formed (\<open>wf\<close>) when its column labels are pairwise distinct and every
  column has one cell per row. The tables read from files are well formed.
\<close>

datatype error = KeyError string | TypeError | ValueError | MergeError

datatype coldata = ObjectCol "string option list" | NumCol "real option list"

type_synonym column = "string \<times> coldata"

record dataframe =
  nrows :: nat
  cols :: "column list"

definition names :: "dataframe \<Rightarrow> string list" where
  "names df = map fst (cols df)"

fun col_len :: "coldata \<Rightarrow> nat" where
  "col_len (ObjectCol xs) = length xs"
| "col_len (NumCol xs) = length xs"

definition wf :: "dataframe \<Rightarrow> bool" where
  "wf df \<longleftrightarrow> distinct (names df) \<and> list_all (\<lambda>c. col_len (snd c) = nrows df) (cols df)"

text \<open>The configuration mapping \<^verbatim>\<open>params\<close>: a field is \<open>None\<close> when the key is absent.\<close>

record params =
  night_hours_start :: "int option"
  night_hours_end :: "int option"
  card_group_column :: "string option"
  missing_threshold :: "real option"
  encoding_exclude :: "string list option"
  target_column :: "string option"
  drop_columns :: "string list option"

definition and_then :: "error + 'a \<Rightarrow> ('a \<Rightarrow> error + 'b) \<Rightarrow> error + 'b" where
  "and_then r f = (case r of Inl e \<Rightarrow> Inl e | Inr x \<Rightarrow> f x)"

definition require :: "string \<Rightarrow> 'a option \<Rightarrow> error + 'a" where
  \<comment> \<open>\<^verbatim>\<open>params[key]\<close>\<close>
  "require key v = (case v of None \<Rightarrow> Inl (KeyError key) | Some x \<Rightarrow> Inr x)"

definition get_or :: "'a option \<Rightarrow> 'a \<Rightarrow> 'a" where
  \<comment> \<open>\<^verbatim>\<open>params.get(key, default)\<close>\<close>
  "get_or v d = (case v of None \<Rightarrow> d | Some x \<Rightarrow> x)"

definition get_col :: "dataframe \<Rightarrow> string \<Rightarrow> error + coldata" where
  \<comment> \<open>\<^verbatim>\<open>df[c]\<close>\<close>
  "get_col df c = (case map_of (cols df) c of None \<Rightarrow> Inl (KeyError c) | Some d \<Rightarrow> Inr d)"

definition set_col :: "dataframe \<Rightarrow> string \<Rightarrow> coldata \<Rightarrow> dataframe" where
  \<comment> \<open>\<^verbatim>\<open>df[c] = d\<close>: overwrites the column in place, or appends a new last column\<close>
  "set_col df c d =
     (if c \<in> set (names df)
      then df\<lparr>cols := map (\<lambda>(n, x). if n = c then (n, d) else (n, x)) (cols df)\<rparr>
      else df\<lparr>cols := cols df @ [(c, d)]\<rparr>)"

definition drop :: "dataframe \<Rightarrow> string list \<Rightarrow> error + dataframe" where
  \<comment> \<open>\<^verbatim>\<open>df.drop(columns=labels)\<close>: a label that is not a column is a KeyError\<close>
  "drop df labels =
     (case filter (\<lambda>l. l \<notin> set (names df)) labels of
        l # _ \<Rightarrow> Inl (KeyError l)
      | [] \<Rightarrow> Inr (df\<lparr>cols := filter (\<lambda>c. fst c \<notin> set labels) (cols df)\<rparr>))"

section \<open>Column operations\<close>

text \<open>
  The pandas and numpy operations the pipeline calls, on the cells of a column. A comparison
  with a missing cell is false, whatever the operator.
\<close>

datatype cell = Str string | Num real

fun cells :: "coldata \<Rightarrow> cell option list" where
  "cells (ObjectCol xs) = map (map_option Str) xs"
| "cells (NumCol xs) = map (map_option Num) xs"

definition somes :: "'a option list \<Rightarrow> 'a list" where
  \<comment> \<open>the cells that are not missing, in row order\<close>
  "somes xs = concat (map (\<lambda>x. case x of None \<Rightarrow> [] | Some v \<Rightarrow> [v]) xs)"

definition as_numeric :: "coldata \<Rightarrow> error + real option list" where
  \<comment> \<open>arithmetic on the strings of an \<^verbatim>\<open>object\<close> column raises TypeError\<close>
  "as_numeric d = (case d of NumCol xs \<Rightarrow> Inr xs | ObjectCol xs \<Rightarrow> Inl TypeError)"

definition num_col :: "dataframe \<Rightarrow> string \<Rightarrow> error + real option list" where
  "num_col df c = and_then (get_col df c) as_numeric"

definition floordiv :: "real \<Rightarrow> real \<Rightarrow> real" where
  \<comment> \<open>\<^verbatim>\<open>x // d\<close>\<close>
  "floordiv x d = of_int \<lfloor>x / d\<rfloor>"

definition pymod :: "real \<Rightarrow> real \<Rightarrow> real" where
  \<comment> \<open>\<^verbatim>\<open>x % m\<close>\<close>
  "pymod x m = x - m * of_int \<lfloor>x / m\<rfloor>"

definition astype_int :: "bool list \<Rightarrow> coldata" where
  \<comment> \<open>\<^verbatim>\<open>.astype(int)\<close> of a boolean column\<close>
  "astype_int bs = NumCol (map (\<lambda>b. Some (if b then 1 else 0)) bs)"

definition isin :: "real list \<Rightarrow> real option list \<Rightarrow> bool list" where
  "isin vs xs = map (\<lambda>x. case x of None \<Rightarrow> False | Some v \<Rightarrow> v \<in> set vs) xs"

definition ge_scalar :: "real option list \<Rightarrow> real \<Rightarrow> bool list" where
  "ge_scalar xs a = map (\<lambda>x. case x of None \<Rightarrow> False | Some v \<Rightarrow> v \<ge> a) xs"

definition lt_scalar :: "real option list \<Rightarrow> real \<Rightarrow> bool list" where
  "lt_scalar xs a = map (\<lambda>x. case x of None \<Rightarrow> False | Some v \<Rightarrow> v < a) xs"

definition eq_scalar :: "real option list \<Rightarrow> real \<Rightarrow> bool list" where
  "eq_scalar xs a = map (\<lambda>x. case x of None \<Rightarrow> False | Some v \<Rightarrow> v = a) xs"

definition or_series :: "bool list \<Rightarrow> bool list \<Rightarrow> bool list" where
  "or_series xs ys = map2 (\<or>) xs ys"

definition series_eq :: "coldata \<Rightarrow> coldata \<Rightarrow> bool list" where
  \<comment> \<open>\<^verbatim>\<open>a == b\<close>, cell by cell: a missing cell equals nothing, not even a missing cell\<close>
  "series_eq a b = map2 (\<lambda>x y. x \<noteq> None \<and> x = y) (cells a) (cells b)"

definition log1p :: "real \<Rightarrow> real option" where
  \<comment> \<open>\<^verbatim>\<open>np.log1p\<close>: NaN below \<open>-1\<close>. At \<open>-1\<close> numpy returns minus infinity, which is not a
      missing value for pandas; a cell here cannot hold it, and it is rendered as \<open>None\<close>. Only
      the column \<^verbatim>\<open>amt_log\<close> is affected, and nothing below is stated about its cells.\<close>
  "log1p x = (if -1 < x then Some (ln (1 + x)) else None)"

fun email_provider :: "coldata \<Rightarrow> coldata" where
  \<comment> \<open>\<^verbatim>\<open>.apply(lambda x: str(x).split(".")[0] if isinstance(x, str) else "unknown")\<close>\<close>
  "email_provider (ObjectCol xs) =
     ObjectCol (map (\<lambda>x. case x of Some s \<Rightarrow> Some (takeWhile (\<lambda>c. c \<noteq> CHR ''.'') s)
                                  | None \<Rightarrow> Some ''unknown'') xs)"
| "email_provider (NumCol xs) = ObjectCol (map (\<lambda>x. Some ''unknown'') xs)"

fun astype_str :: "(real \<Rightarrow> string) \<Rightarrow> coldata \<Rightarrow> string list" where
  \<comment> \<open>\<^verbatim>\<open>.astype(str)\<close>; \<open>fmt\<close> writes a number of the column as Python's \<^verbatim>\<open>str\<close> does\<close>
  "astype_str fmt (ObjectCol xs) = map (\<lambda>x. case x of None \<Rightarrow> ''nan'' | Some s \<Rightarrow> s) xs"
| "astype_str fmt (NumCol xs) = map (\<lambda>x. case x of None \<Rightarrow> ''nan'' | Some v \<Rightarrow> fmt v) xs"

definition str_add :: "string list \<Rightarrow> string list \<Rightarrow> string list" where
  "str_add xs ys = map2 (@) xs ys"

definition str_add_scalar :: "string list \<Rightarrow> string \<Rightarrow> string list" where
  "str_add_scalar xs s = map (\<lambda>x. x @ s) xs"

subsection \<open>Group-by aggregation\<close>

definition group_keys :: "('k::linorder) option list \<Rightarrow> 'k list" where
  \<comment> \<open>the groups of \<^verbatim>\<open>groupby\<close>: the distinct keys, sorted; rows with a missing key are in no group\<close>
  "group_keys ks = sort (remdups (somes ks))"

definition group_values :: "'k option list \<Rightarrow> real option list \<Rightarrow> 'k \<Rightarrow> real list" where
  \<comment> \<open>the non-missing values of the aggregated column in the rows of group \<open>g\<close>\<close>
  "group_values ks vs g = somes (map snd (filter (\<lambda>p. fst p = Some g) (zip ks vs)))"

definition agg_count :: "real list \<Rightarrow> real option" where
  "agg_count xs = Some (real (length xs))"

definition agg_mean :: "real list \<Rightarrow> real option" where
  "agg_mean xs = (if xs = [] then None else Some (sum_list xs / real (length xs)))"

definition agg_std :: "real list \<Rightarrow> real option" where
  \<comment> \<open>the sample standard deviation (\<^verbatim>\<open>ddof=1\<close>): NaN for fewer than two values\<close>
  "agg_std xs =
     (if length xs \<le> 1 then None
      else let m = sum_list xs / real (length xs)
           in Some (sqrt (sum_list (map (\<lambda>x. (x - m)\<^sup>2) xs) / (real (length xs) - 1))))"

definition agg_frame :: "string \<Rightarrow> coldata \<Rightarrow> real list list \<Rightarrow> dataframe" where
  \<comment> \<open>\<^verbatim>\<open>.agg(...).reset_index()\<close> and the renaming of line 61: one row for each group\<close>
  "agg_frame card_col keycol groups =
     \<lparr>nrows = length groups,
      cols = [(card_col, keycol),
              (''card_txn_count'', NumCol (map agg_count groups)),
              (''card_amt_mean'', NumCol (map agg_mean groups)),
              (''card_amt_std'', NumCol (map agg_std groups))]\<rparr>"

fun card_freq :: "string \<Rightarrow> coldata \<Rightarrow> real option list \<Rightarrow> dataframe" where
  "card_freq card_col (ObjectCol ks) vs =
     agg_frame card_col (ObjectCol (map Some (group_keys ks)))
       (map (group_values ks vs) (group_keys ks))"
| "card_freq card_col (NumCol ks) vs =
     agg_frame card_col (NumCol (map Some (group_keys ks)))
       (map (group_values ks vs) (group_keys ks))"

subsection \<open>Left join\<close>

definition matches :: "cell option list \<Rightarrow> cell option \<Rightarrow> nat list" where
  \<comment> \<open>the right rows with key \<open>k\<close>, in order; a missing key matches a missing key\<close>
  "matches rk k = filter (\<lambda>j. rk ! j = k) [0..<length rk]"

definition left_join_indexer :: "cell option list \<Rightarrow> cell option list \<Rightarrow> (nat \<times> nat option) list" where
  \<comment> \<open>for each left row in order: one output row for each matching right row, or one
      unmatched output row\<close>
  "left_join_indexer lk rk =
     concat (map (\<lambda>i. case matches rk (lk ! i) of
                         [] \<Rightarrow> [(i, None)]
                       | js \<Rightarrow> map (\<lambda>j. (i, Some j)) js) [0..<length lk])"

definition first_match :: "cell option list \<Rightarrow> cell option \<Rightarrow> nat option" where
  \<comment> \<open>the first right row with key \<open>k\<close>\<close>
  "first_match rk k = (case matches rk k of [] \<Rightarrow> None | j # _ \<Rightarrow> Some j)"

fun take_rows :: "nat list \<Rightarrow> coldata \<Rightarrow> coldata" where
  "take_rows ix (ObjectCol xs) = ObjectCol (map (\<lambda>i. xs ! i) ix)"
| "take_rows ix (NumCol xs) = NumCol (map (\<lambda>i. xs ! i) ix)"

fun take_rows_opt :: "nat option list \<Rightarrow> coldata \<Rightarrow> coldata" where
  "take_rows_opt ix (ObjectCol xs) =
     ObjectCol (map (\<lambda>j. case j of None \<Rightarrow> None | Some j \<Rightarrow> xs ! j) ix)"
| "take_rows_opt ix (NumCol xs) =
     NumCol (map (\<lambda>j. case j of None \<Rightarrow> None | Some j \<Rightarrow> xs ! j) ix)"

fun same_dtype :: "coldata \<Rightarrow> coldata \<Rightarrow> bool" where
  "same_dtype (ObjectCol _) (ObjectCol _) = True"
| "same_dtype (NumCol _) (NumCol _) = True"
| "same_dtype _ _ = False"

definition suffixed :: "string list \<Rightarrow> string \<Rightarrow> string \<Rightarrow> string" where
  "suffixed overlap suffix n = (if n \<in> set overlap then n @ suffix else n)"

definition joined ::
  "(nat \<times> nat option) list \<Rightarrow> string list \<Rightarrow> column list \<Rightarrow> column list \<Rightarrow> error + dataframe" where
  \<comment> \<open>the joined table: the left columns, then the right columns, the shared labels suffixed\<close>
  "joined ix overlap lcols rcols =
     (if \<not> distinct (map (\<lambda>c. suffixed overlap ''_x'' (fst c)) lcols)
         \<or> \<not> distinct (map (\<lambda>c. suffixed overlap ''_y'' (fst c)) rcols)
      then Inl MergeError
      else Inr \<lparr>nrows = length ix,
                cols = map (\<lambda>c. (suffixed overlap ''_x'' (fst c), take_rows (map fst ix) (snd c))) lcols
                     @ map (\<lambda>c. (suffixed overlap ''_y'' (fst c), take_rows_opt (map snd ix) (snd c))) rcols\<rparr>)"

definition merge_left :: "dataframe \<Rightarrow> dataframe \<Rightarrow> string \<Rightarrow> error + dataframe" where
  \<comment> \<open>\<^verbatim>\<open>pd.merge(left, right, on=key, how="left")\<close>. The key must be a column of both tables
      (KeyError), under one label only and of one dtype (ValueError). A label the tables share
      beside the key gets the suffix \<^verbatim>\<open>_x\<close> on the left and \<^verbatim>\<open>_y\<close> on the right; a suffix
      that makes two labels of one side equal is a MergeError.\<close>
  "merge_left left right key =
     and_then (get_col right key) (\<lambda>rk.
     and_then (get_col left key) (\<lambda>lk.
       if 1 < count_list (names left) key \<or> 1 < count_list (names right) key
         then Inl ValueError
       else if \<not> same_dtype lk rk then Inl ValueError
       else joined (left_join_indexer (cells lk) (cells rk))
              (filter (\<lambda>n. n \<in> set (names right) \<and> n \<noteq> key) (names left))
              (cols left) (filter (\<lambda>c. fst c \<noteq> key) (cols right))))"

section \<open>Merger\<close>

definition merge_datasets :: "dataframe \<Rightarrow> dataframe \<Rightarrow> error + dataframe" where
  "merge_datasets transactions identity = merge_left transactions identity ''TransactionID''"

section \<open>FeatureEngineer\<close>

text \<open>
  \<^verbatim>\<open>engineer_features\<close>, line by line. \<open>assign df c e\<close> is the statement \<^verbatim>\<open>df[c] = e\<close>
  whose right-hand side \<open>e\<close> may raise. Each block below is a run of consecutive assignments
  of the source; a later line reads the table the earlier lines have built. The text Python
  writes for a number is not modelled: \<open>fmt c x\<close> stands for \<^verbatim>\<open>str(x)\<close> of a number \<open>x\<close> of
  column \<open>c\<close>.
\<close>

definition assign :: "dataframe \<Rightarrow> string \<Rightarrow> error + coldata \<Rightarrow> error + dataframe" where
  "assign df c e = and_then e (\<lambda>d. Inr (set_col df c d))"

definition temporal_features :: "int \<Rightarrow> int \<Rightarrow> dataframe \<Rightarrow> error + dataframe" where
  \<comment> \<open>lines 32 to 35\<close>
  "temporal_features night_start night_end df =
     and_then (assign df ''hour''
       (and_then (num_col df ''TransactionDT'') (\<lambda>dt.
        Inr (NumCol (map (map_option (\<lambda>t. pymod (floordiv t 3600) 24)) dt))))) (\<lambda>df.
     and_then (assign df ''day_of_week''
       (and_then (num_col df ''TransactionDT'') (\<lambda>dt.
        Inr (NumCol (map (map_option (\<lambda>t. pymod (floordiv t (3600 * 24)) 7)) dt))))) (\<lambda>df.
     and_then (assign df ''is_weekend''
       (and_then (num_col df ''day_of_week'') (\<lambda>dow.
        Inr (astype_int (isin [5, 6] dow))))) (\<lambda>df.
     assign df ''is_night''
       (and_then (num_col df ''hour'') (\<lambda>hour.
        and_then (num_col df ''hour'') (\<lambda>hour'.
        Inr (astype_int (or_series (ge_scalar hour (of_int night_start))
                                   (lt_scalar hour' (of_int night_end))))))))))"

definition amount_features :: "dataframe \<Rightarrow> error + dataframe" where
  \<comment> \<open>lines 37 to 39\<close>
  "amount_features df =
     and_then (assign df ''amt_log''
       (and_then (num_col df ''TransactionAmt'') (\<lambda>amt.
        Inr (NumCol (map (\<lambda>x. Option.bind x log1p) amt))))) (\<lambda>df.
     and_then (assign df ''amt_decimal''
       (and_then (num_col df ''TransactionAmt'') (\<lambda>amt.
        Inr (NumCol (map (map_option (\<lambda>x. pymod x 1)) amt))))) (\<lambda>df.
     assign df ''is_round_amt''
       (and_then (num_col df ''amt_decimal'') (\<lambda>dec.
        Inr (astype_int (eq_scalar dec 0))))))"

definition email_features :: "dataframe \<Rightarrow> error + dataframe" where
  \<comment> \<open>lines 41 to 44\<close>
  "email_features df =
     and_then (assign df ''P_email_provider''
       (and_then (get_col df ''P_emaildomain'') (\<lambda>p. Inr (email_provider p)))) (\<lambda>df.
     and_then (assign df ''R_email_provider''
       (and_then (get_col df ''R_emaildomain'') (\<lambda>r. Inr (email_provider r)))) (\<lambda>df.
     assign df ''email_match''
       (and_then (get_col df ''P_emaildomain'') (\<lambda>p.
        and_then (get_col df ''R_emaildomain'') (\<lambda>r.
        Inr (astype_int (series_eq p r)))))))"

definition card_id_feature :: "(string \<Rightarrow> real \<Rightarrow> string) \<Rightarrow> dataframe \<Rightarrow> error + dataframe" where
  \<comment> \<open>lines 46 to 53\<close>
  "card_id_feature fmt df =
     assign df ''card_id''
       (and_then (get_col df ''card1'') (\<lambda>c1.
        and_then (get_col df ''card2'') (\<lambda>c2.
        and_then (get_col df ''card3'') (\<lambda>c3.
        and_then (get_col df ''card4'') (\<lambda>c4.
        and_then (get_col df ''card5'') (\<lambda>c5.
        and_then (get_col df ''card6'') (\<lambda>c6.
        Inr (ObjectCol (map Some
          (str_add (str_add_scalar
            (str_add (str_add_scalar
              (str_add (str_add_scalar
                (str_add (str_add_scalar
                  (str_add (str_add_scalar
                    (astype_str (fmt ''card1'') c1) ''_'')
                    (astype_str (fmt ''card2'') c2)) ''_'')
                  (astype_str (fmt ''card3'') c3)) ''_'')
                (astype_str (fmt ''card4'') c4)) ''_'')
              (astype_str (fmt ''card5'') c5)) ''_'')
            (astype_str (fmt ''card6'') c6)))))))))))"

definition card_aggregates :: "string \<Rightarrow> dataframe \<Rightarrow> error + dataframe" where
  \<comment> \<open>lines 55 to 63: the aggregated column is \<^verbatim>\<open>TransactionID\<close>\<close>
  "card_aggregates card_col df =
     and_then (get_col df card_col) (\<lambda>keys.
     and_then (get_col df ''TransactionID'') (\<lambda>ids.
     and_then (as_numeric ids) (\<lambda>vals.
     merge_left df (card_freq card_col keys vals) card_col)))"

definition engineer_features ::
  "(string \<Rightarrow> real \<Rightarrow> string) \<Rightarrow> dataframe \<Rightarrow> params \<Rightarrow> error + dataframe" where
  "engineer_features fmt df ps =
     and_then (require ''night_hours_start'' (night_hours_start ps)) (\<lambda>night_start.
     and_then (require ''night_hours_end'' (night_hours_end ps)) (\<lambda>night_end.
     and_then (require ''card_group_column'' (card_group_column ps)) (\<lambda>card_col.
     and_then (temporal_features night_start night_end df) (\<lambda>df.
     and_then (amount_features df) (\<lambda>df.
     and_then (email_features df) (\<lambda>df.
     and_then (card_id_feature fmt df) (\<lambda>df.
     card_aggregates card_col df)))))))"

section \<open>Binary floating point\<close>

text \<open>
  A Python float is an IEEE 754 binary64 number: a sign, 53 significant bits and an exponent.
  The result of a floating-point operation is the exact result rounded to the nearest such
  number, to the one with an even last bit when two are equally near. \<open>binary64\<close> is that
  rounding on the reals, with an unbounded exponent: for \<open>x \<noteq> 0\<close> with
  \<open>2 ^ e \<le> \<bar>x\<bar> < 2 ^ (e + 1)\<close> it rounds \<open>\<bar>x\<bar> / 2 ^ (e - 52)\<close> to a whole number. It
  agrees with Python as long as the exact result is smaller than \<open>2 ^ 1024\<close> and is not
  rounded among the subnormal numbers (below \<open>2 ^ (- 1022)\<close>).
\<close>

fun bit_length :: "nat \<Rightarrow> nat" where
  "bit_length n = (if n = 0 then 0 else Suc (bit_length (n div 2)))"

declare bit_length.simps [simp del]

definition exponent :: "real \<Rightarrow> int" where
  \<comment> \<open>for \<open>0 < x\<close>, the \<open>e\<close> with \<open>2 ^ e \<le> x < 2 ^ (e + 1)\<close>\<close>
  "exponent x =
     (if 1 \<le> x then int (bit_length (nat \<lfloor>x\<rfloor>)) - 1
      else if 1 / x = 2 ^ (bit_length (nat \<lfloor>1 / x\<rfloor>) - 1)
        then 1 - int (bit_length (nat \<lfloor>1 / x\<rfloor>))
      else - int (bit_length (nat \<lfloor>1 / x\<rfloor>)))"

definition round_half_even :: "real \<Rightarrow> int" where
  "round_half_even x =
     (if x - of_int \<lfloor>x\<rfloor> < 1 / 2 then \<lfloor>x\<rfloor>
      else if 1 / 2 < x - of_int \<lfloor>x\<rfloor> then \<lfloor>x\<rfloor> + 1
      else if even \<lfloor>x\<rfloor> then \<lfloor>x\<rfloor> else \<lfloor>x\<rfloor> + 1)"

definition scale :: "int \<Rightarrow> real \<Rightarrow> real" where
  \<comment> \<open>\<open>x * 2 ^ k\<close>, for a negative \<open>k\<close> too\<close>
  "scale k x = (if 0 \<le> k then x * 2 ^ nat k else x / 2 ^ nat (- k))"

definition binary64 :: "real \<Rightarrow> real" where
  "binary64 x =
     (if x = 0 then 0
      else sgn x * scale (exponent \<bar>x\<bar> - 52)
             (of_int (round_half_even (scale (52 - exponent \<bar>x\<bar>) \<bar>x\<bar>))))"

section \<open>MissingValueHandler\<close>

fun null_count :: "coldata \<Rightarrow> nat" where
  "null_count (ObjectCol xs) = length (filter (\<lambda>x. x = None) xs)"
| "null_count (NumCol xs) = length (filter (\<lambda>x. x = None) xs)"

definition missing_pct :: "nat \<Rightarrow> coldata \<Rightarrow> real option" where
  \<comment> \<open>\<^verbatim>\<open>df.isnull().sum() / len(df)\<close>: the two whole numbers are converted to binary64 and
      divided there; NaN (\<open>None\<close>) for a table without rows\<close>
  "missing_pct n d =
     (if n = 0 then None
      else Some (binary64 (binary64 (real (null_count d)) / binary64 (real n))))"

definition exceeds :: "real option \<Rightarrow> real \<Rightarrow> bool" where
  \<comment> \<open>\<^verbatim>\<open>missing_pct > threshold\<close>: false for NaN\<close>
  "exceeds p t = (case p of None \<Rightarrow> False | Some v \<Rightarrow> t < v)"

definition median :: "real list \<Rightarrow> real option" where
  \<comment> \<open>\<^verbatim>\<open>Series.median()\<close> over the non-missing values: NaN when there is none, the middle
      value of an odd number of values, the binary64 mean of the two middle values otherwise
      (their sum is rounded, then its half)\<close>
  "median xs =
     (let s = sort xs; n = length s
      in if n = 0 then None
         else if odd n then Some (s ! (n div 2))
         else Some (binary64 (binary64 (s ! (n div 2 - 1) + s ! (n div 2)) / 2)))"

fun fill_missing :: "coldata \<Rightarrow> coldata" where
  \<comment> \<open>the body of the loop of lines 82 to 86\<close>
  "fill_missing (ObjectCol xs) =
     ObjectCol (map (\<lambda>x. case x of None \<Rightarrow> Some ''unknown'' | Some s \<Rightarrow> Some s) xs)"
| "fill_missing (NumCol xs) =
     NumCol (map (\<lambda>x. case x of None \<Rightarrow> median (somes xs) | Some v \<Rightarrow> Some v) xs)"

definition handle_missing_values :: "dataframe \<Rightarrow> params \<Rightarrow> error + dataframe" where
  \<comment> \<open>the threshold is a Python float: the binary64 number nearest to the configured number,
      or to the \<^verbatim>\<open>0.9\<close> of line 73\<close>
  "handle_missing_values df ps =
     (let threshold = binary64 (get_or (missing_threshold ps) (9 / 10));
          cols_to_drop =
            map fst (filter (\<lambda>c. exceeds (missing_pct (nrows df) (snd c)) threshold) (cols df))
      in and_then (drop df cols_to_drop) (\<lambda>df.
         Inr (df\<lparr>cols := map (\<lambda>(n, d). (n, fill_missing d)) (cols df)\<rparr>)))"

section \<open>CategoricalEncoder\<close>

definition object_columns :: "dataframe \<Rightarrow> (string \<times> string option list) list" where
  \<comment> \<open>\<^verbatim>\<open>df.select_dtypes(include=["object"])\<close>\<close>
  "object_columns df =
     concat (map (\<lambda>(n, d). case d of ObjectCol xs \<Rightarrow> [(n, xs)] | NumCol _ \<Rightarrow> []) (cols df))"

definition nunique :: "string option list \<Rightarrow> nat" where
  "nunique xs = length (remdups (somes xs))"

text \<open>
  \<^verbatim>\<open>value_counts\<close> lists the distinct values of a column with their counts, most frequent
  first. pandas does not fix the order of values of equal count: it is the order its sorting
  routine leaves, and it differs between versions. The parameter \<open>tie\<close> stands for it: it
  ranks the values of a column, and of two values of equal count the one of lower rank comes
  first (the one met first in the column, when the ranks are equal too). \<^verbatim>\<open>nlargest(10)\<close>
  then takes the first ten entries: of equal counts it keeps the first ones.
\<close>

definition value_counts ::
  "(string option list \<Rightarrow> string \<Rightarrow> nat) \<Rightarrow> string option list \<Rightarrow> (string \<times> nat) list" where
  "value_counts tie xs =
     (let vs = somes xs
      in sort_key (\<lambda>p. - int (snd p))
           (sort_key (\<lambda>p. tie xs (fst p))
              (map (\<lambda>v. (v, count_list vs v)) (rev (remdups (rev vs))))))"

definition cap_categories ::
  "(string option list \<Rightarrow> string \<Rightarrow> nat) \<Rightarrow> string option list \<Rightarrow> string option list" where
  \<comment> \<open>lines 105 to 107\<close>
  "cap_categories tie xs =
     (if 10 < nunique xs
      then let top_categories = map fst (take 10 (value_counts tie xs))
           in map (\<lambda>x. case x of None \<Rightarrow> Some ''other''
                                | Some v \<Rightarrow> if v \<in> set top_categories then Some v else Some ''other'') xs
      else xs)"

definition dummies :: "string \<Rightarrow> string option list \<Rightarrow> column list" where
  \<comment> \<open>the indicator columns of one column under \<^verbatim>\<open>drop_first=True\<close>: one for each distinct value
      in sorted order, the first left out; a cell is \<open>1\<close> (\<^verbatim>\<open>True\<close>) in the rows that hold the
      value and \<open>0\<close> in the others, a missing cell included\<close>
  "dummies name xs =
     (case sort (remdups (somes xs)) of
        [] \<Rightarrow> []
      | first # levels \<Rightarrow>
          map (\<lambda>level. (name @ ''_'' @ level,
                        NumCol (map (\<lambda>x. Some (if x = Some level then 1 else 0)) xs))) levels)"

definition encode_categorical_variables ::
  "(string option list \<Rightarrow> string \<Rightarrow> nat) \<Rightarrow> dataframe \<Rightarrow> params \<Rightarrow> error + dataframe" where
  \<comment> \<open>\<^verbatim>\<open>pd.get_dummies\<close> puts the columns it does not encode first and the indicator columns
      after them; on a table without any column it raises ValueError\<close>
  "encode_categorical_variables tie df ps =
     (let exclude_cols = get_or (encoding_exclude ps) [];
          categorical_cols = filter (\<lambda>c. fst c \<notin> set exclude_cols) (object_columns df);
          capped = map (\<lambda>(n, xs). (n, cap_categories tie xs)) categorical_cols;
          others = filter (\<lambda>c. fst c \<notin> set (map fst categorical_cols)) (cols df)
      in if cols df = [] then Inl ValueError
         else Inr (df\<lparr>cols := others @ concat (map (\<lambda>(n, xs). dummies n xs) capped)\<rparr>))"

section \<open>Splitter\<close>

definition split_features_target :: "dataframe \<Rightarrow> params \<Rightarrow> error + (dataframe \<times> coldata)" where
  "split_features_target df ps =
     (let target = get_or (target_column ps) ''isFraud'';
          drop_cols = get_or (drop_columns ps) [];
          drop_cols = filter (\<lambda>c. c \<in> set (names df)) drop_cols
      in and_then (drop df drop_cols) (\<lambda>X.
         and_then (get_col df target) (\<lambda>y.
         Inr (X, y))))"

section \<open>The pipeline\<close>

definition data_processing ::
  "(string \<Rightarrow> real \<Rightarrow> string) \<Rightarrow> (string option list \<Rightarrow> string \<Rightarrow> nat) \<Rightarrow> dataframe \<Rightarrow> dataframe
     \<Rightarrow> params \<Rightarrow> error + (dataframe \<times> coldata)" where
  "data_processing fmt tie train_transaction train_identity ps =
     and_then (merge_datasets train_transaction train_identity) (\<lambda>merged_data.
     and_then (engineer_features fmt merged_data ps) (\<lambda>featured_data.
     and_then (handle_missing_values featured_data ps) (\<lambda>clean_data.
     and_then (encode_categorical_variables tie clean_data ps) (\<lambda>encoded_data.
     split_features_target encoded_data ps))))"

section \<open>Auxiliary definitions\<close>

definition pre_aggregate ::
  "(string \<Rightarrow> real \<Rightarrow> string) \<Rightarrow> int \<Rightarrow> int \<Rightarrow> dataframe \<Rightarrow> error + dataframe" where
  "pre_aggregate fmt night_start night_end df =
     and_then (temporal_features night_start night_end df) (\<lambda>df.
     and_then (amount_features df) (\<lambda>df.
     and_then (email_features df) (\<lambda>df.
     card_id_feature fmt df)))"

definition hours :: "real option list \<Rightarrow> real option list" where
  "hours dt = map (map_option (\<lambda>t. pymod (floordiv t 3600) 24)) dt"

definition card_id_column :: "(string \<Rightarrow> real \<Rightarrow> string) \<Rightarrow> coldata list \<Rightarrow> coldata" where
  "card_id_column fmt cs = ObjectCol (map Some
          (str_add (str_add_scalar
            (str_add (str_add_scalar
              (str_add (str_add_scalar
                (str_add (str_add_scalar
                  (str_add (str_add_scalar
                    (astype_str (fmt ''card1'') (cs ! 0)) ''_'')
                    (astype_str (fmt ''card2'') (cs ! 1))) ''_'')
                  (astype_str (fmt ''card3'') (cs ! 2))) ''_'')
                (astype_str (fmt ''card4'') (cs ! 3))) ''_'')
              (astype_str (fmt ''card5'') (cs ! 4))) ''_'')
            (astype_str (fmt ''card6'') (cs ! 5))))"

definition with_features ::
  "(string \<Rightarrow> real \<Rightarrow> string) \<Rightarrow> int \<Rightarrow> int \<Rightarrow> dataframe \<Rightarrow> real option list \<Rightarrow> real option list
     \<Rightarrow> coldata \<Rightarrow> coldata \<Rightarrow> coldata list \<Rightarrow> dataframe" where
  "with_features fmt ns ne df dt amt p r cs =
     set_col (set_col (set_col (set_col (set_col (set_col (set_col (set_col (set_col (set_col
       (set_col df
         ''hour'' (NumCol (hours dt)))
         ''day_of_week'' (NumCol (map (map_option (\<lambda>t. pymod (floordiv t (3600 * 24)) 7)) dt)))
         ''is_weekend'' (astype_int (isin [5, 6]
            (map (map_option (\<lambda>t. pymod (floordiv t (3600 * 24)) 7)) dt))))
         ''is_night'' (astype_int (or_series (ge_scalar (hours dt) (of_int ns))
                                             (lt_scalar (hours dt) (of_int ne)))))
         ''amt_log'' (NumCol (map (\<lambda>x. Option.bind x log1p) amt)))
         ''amt_decimal'' (NumCol (map (map_option (\<lambda>x. pymod x 1)) amt)))
         ''is_round_amt'' (astype_int (eq_scalar (map (map_option (\<lambda>x. pymod x 1)) amt) 0)))
         ''P_email_provider'' (email_provider p))
         ''R_email_provider'' (email_provider r))
         ''email_match'' (astype_int (series_eq p r)))
         ''card_id'' (card_id_column fmt cs)"

definition required_columns :: "string list" where
  "required_columns = [''TransactionDT'', ''TransactionAmt'', ''P_emaildomain'', ''R_emaildomain'',
     ''card1'', ''card2'', ''card3'', ''card4'', ''card5'', ''card6'']"

definition not_object :: "dataframe \<Rightarrow> string \<Rightarrow> bool" where
  "not_object df c = (case get_col df c of Inr (ObjectCol xs) \<Rightarrow> False | _ \<Rightarrow> True)"

definition categorical_columns :: "dataframe \<Rightarrow> params \<Rightarrow> (string \<times> string option list) list" where
  "categorical_columns df ps =
     filter (\<lambda>c. fst c \<notin> set (get_or (encoding_exclude ps) [])) (object_columns df)"

definition binary :: "coldata \<Rightarrow> bool" where
  "binary d = (case d of NumCol xs \<Rightarrow> list_all (\<lambda>x. x = Some 0 \<or> x = Some 1) xs | ObjectCol xs \<Rightarrow> False)"

definition aggregate_names :: "string list" where
  "aggregate_names = [''card_txn_count'', ''card_amt_mean'', ''card_amt_std'']"

definition rectangular :: "dataframe \<Rightarrow> bool" where
  "rectangular df = list_all (\<lambda>c. col_len (snd c) = nrows df) (cols df)"

definition column_of :: "error + dataframe \<Rightarrow> string \<Rightarrow> error + coldata" where
  "column_of r c = and_then r (\<lambda>df. get_col df c)"

text \<open>
  The tables for which \<open>binary64\<close> is the arithmetic of Python: the row count is a 64-bit
  integer, and every number in a numeric column is a binary64 number that is zero or lies
  between \<open>2 ^ (- 1021)\<close> and \<open>2 ^ 1023\<close> in magnitude, so that the sum of two cells does
  not overflow and its half is not rounded among the subnormal numbers.
\<close>

definition binary64_cell :: "real \<Rightarrow> bool" where
  "binary64_cell v \<longleftrightarrow> binary64 v = v \<and> (v = 0 \<or> (1 / 2 ^ 1021 \<le> \<bar>v\<bar> \<and> \<bar>v\<bar> < 2 ^ 1023))"

definition binary64_frame :: "dataframe \<Rightarrow> bool" where
  "binary64_frame df \<longleftrightarrow> nrows df < 2 ^ 63
     \<and> list_all (\<lambda>c. case snd c of NumCol xs \<Rightarrow> list_all binary64_cell (somes xs)
                                  | ObjectCol xs \<Rightarrow> True) (cols df)"

section \<open>Example tables\<close>

text \<open>A two-column table with the target, and a configuration with no key set.\<close>

definition no_params :: params where
  "no_params = \<lparr>night_hours_start = None, night_hours_end = None, card_group_column = None,
     missing_threshold = None, encoding_exclude = None, target_column = None,
     drop_columns = None\<rparr>"

definition fraud_table :: dataframe where
  "fraud_table = \<lparr>nrows = 1, cols = [(''V1'', NumCol [Some 7]), (''isFraud'', NumCol [Some 0])]\<rparr>"

definition merged_table :: dataframe where
  "merged_table = \<lparr>nrows = 3, cols =
     [(''TransactionID'', NumCol [Some 1, Some 2, Some 3]),
      (''TransactionDT'', NumCol [Some 79200, Some 21600, None]),
      (''TransactionAmt'', NumCol [Some 10, Some 20, Some (61 / 2)]),
      (''P_emaildomain'', ObjectCol [Some ''a.com'', None, Some ''a.com'']),
      (''R_emaildomain'', ObjectCol [Some ''a.com'', None, Some ''b.com'']),
      (''card1'', NumCol [Some 1, Some 1, Some 2]),
      (''card2'', NumCol [None, None, None]),
      (''card3'', NumCol [None, None, None]),
      (''card4'', ObjectCol [Some ''visa'', Some ''visa'', None]),
      (''card5'', NumCol [None, None, None]),
      (''card6'', ObjectCol [Some ''debit'', Some ''debit'', Some ''credit''])]\<rparr>"

definition night_params :: params where
  "night_params = no_params\<lparr>night_hours_start := Some 22, night_hours_end := Some 6,
     card_group_column := Some ''card1''\<rparr>"

definition by_first_row :: "string option list \<Rightarrow> string \<Rightarrow> nat" where
  \<comment> \<open>no preference: of two values of equal count the one met first in the column comes first\<close>
  "by_first_row xs v = 0"

definition later_first :: "string option list \<Rightarrow> string \<Rightarrow> nat" where
  \<comment> \<open>of two values of equal count the one met later in the column comes first\<close>
  "later_first xs v = length (dropWhile (\<lambda>x. x \<noteq> Some v) xs)"

definition plain_fmt :: "string \<Rightarrow> real \<Rightarrow> string" where
  "plain_fmt c x = ''n''"

definition text_dt_table :: dataframe where
  "text_dt_table = \<lparr>nrows = 1, cols = [(''TransactionDT'', ObjectCol [Some ''noon''])]\<rparr>"

definition all_missing_table :: dataframe where
  "all_missing_table = \<lparr>nrows = 2, cols = [(''V1'', NumCol [None, None])]\<rparr>"

definition device_table :: dataframe where
  "device_table = \<lparr>nrows = 12, cols =
     [(''amt'', NumCol [Some 1, Some 2, Some 3, Some 4, Some 5, Some 6,
                        Some 7, Some 8, Some 9, Some 10, Some 11, Some 12]),
      (''dev'', ObjectCol [Some ''a'', Some ''b'', Some ''c'', Some ''d'', Some ''e'', Some ''f'',
                           Some ''g'', Some ''h'', Some ''i'', Some ''j'', Some ''k'', Some ''a'']),
      (''os'', ObjectCol [Some ''x'', Some ''y'', Some ''x'', Some ''y'', Some ''x'', Some ''y'',
                          Some ''x'', Some ''y'', Some ''x'', Some ''y'', Some ''x'', Some ''y'']),
      (''tag'', ObjectCol [Some ''p'', Some ''q'', Some ''p'', Some ''q'', Some ''p'', Some ''q'',
                           Some ''p'', Some ''q'', Some ''p'', Some ''q'', Some ''p'', Some ''q''])]\<rparr>"

definition featured_table :: dataframe where
  "featured_table = \<lparr>nrows = 3, cols =
     [(''TransactionID'', NumCol [Some 1, Some 2, Some 3]),
      (''TransactionDT'', NumCol [Some 79200, Some 21600, None]),
      (''TransactionAmt'', NumCol [Some 10, Some 20, Some (61 / 2)]),
      (''P_emaildomain'', ObjectCol [Some ''a.com'', None, Some ''a.com'']),
      (''R_emaildomain'', ObjectCol [Some ''a.com'', None, Some ''b.com'']),
      (''card1'', NumCol [Some 1, Some 1, Some 2]),
      (''card2'', NumCol [None, None, None]),
      (''card3'', NumCol [None, None, None]),
      (''card4'', ObjectCol [Some ''visa'', Some ''visa'', None]),
      (''card5'', NumCol [None, None, None]),
      (''card6'', ObjectCol [Some ''debit'', Some ''debit'', Some ''credit'']),
      (''hour'', NumCol [Some 22, Some 6, None]),
      (''day_of_week'', NumCol [Some 0, Some 0, None]),
      (''is_weekend'', NumCol [Some 0, Some 0, Some 0]),
      (''is_night'', NumCol [Some 1, Some 0, Some 0]),
      (''amt_log'', NumCol [Some (ln 11), Some (ln 21), Some (ln (63 / 2))]),
      (''amt_decimal'', NumCol [Some 0, Some 0, Some (1 / 2)]),
      (''is_round_amt'', NumCol [Some 1, Some 1, Some 0]),
      (''P_email_provider'', ObjectCol [Some ''a'', Some ''unknown'', Some ''a'']),
      (''R_email_provider'', ObjectCol [Some ''a'', Some ''unknown'', Some ''b'']),
      (''email_match'', NumCol [Some 1, Some 0, Some 0]),
      (''card_id'', ObjectCol [Some ''n_nan_nan_visa_nan_debit'', Some ''n_nan_nan_visa_nan_debit'',
                               Some ''n_nan_nan_nan_nan_credit'']),
      (''card_txn_count'', NumCol [Some 2, Some 2, Some 1]),
      (''card_amt_mean'', NumCol [Some (3 / 2), Some (3 / 2), Some 3]),
      (''card_amt_std'', NumCol [Some (sqrt (1 / 2)), Some (sqrt (1 / 2)), None])]\<rparr>"

definition txn_table :: dataframe where
  "txn_table = \<lparr>nrows = 2, cols =
     [(''TransactionID'', NumCol [Some 1, Some 2]), (''isFraud'', NumCol [Some 0, Some 1])]\<rparr>"

definition id_table :: dataframe where
  "id_table = \<lparr>nrows = 1, cols =
     [(''TransactionID'', NumCol [Some 2]), (''DeviceType'', ObjectCol [Some ''mobile''])]\<rparr>"

definition dup_id_table :: dataframe where
  "dup_id_table = \<lparr>nrows = 2, cols =
     [(''TransactionID'', NumCol [Some 2, Some 2]),
      (''DeviceType'', ObjectCol [Some ''mobile'', Some ''desktop''])]\<rparr>"

text \<open>
  A table with gaps, for the threshold \<^verbatim>\<open>0.3333333333333333\<close>, the binary64 number nearest
  to a third. \<^verbatim>\<open>A\<close>, \<^verbatim>\<open>C\<close> and \<^verbatim>\<open>D\<close> have two cells of six missing: the quotient is
  rounded to the threshold and does not exceed it. \<^verbatim>\<open>B\<close> has three missing. \<^verbatim>\<open>D\<close> holds the
  binary64 numbers \<^verbatim>\<open>0.1\<close> and \<^verbatim>\<open>0.2\<close>, whose mean in Python is \<^verbatim>\<open>0.15000000000000002\<close>.
  \<^verbatim>\<open>E\<close> has an odd number of values.
\<close>

definition gaps_table :: dataframe where
  "gaps_table = \<lparr>nrows = 6, cols =
     [(''A'', NumCol [Some 1, Some 2, None, Some 4, None, Some 3]),
      (''B'', NumCol [None, Some 5, None, None, Some 7, Some 6]),
      (''C'', ObjectCol [Some ''x'', None, Some ''y'', None, Some ''x'', Some ''x'']),
      (''D'', NumCol [Some (3602879701896397 / 36028797018963968), None,
                      Some (3602879701896397 / 18014398509481984),
                      Some (3602879701896397 / 36028797018963968),
                      Some (3602879701896397 / 18014398509481984), None]),
      (''E'', NumCol [Some 9, Some 3, None, Some 5, Some 1, Some 7])]\<rparr>"

text \<open>One cell of three missing.\<close>

definition third_table :: dataframe where
  "third_table = \<lparr>nrows = 3, cols = [(''A'', NumCol [Some 1, Some 2, None])]\<rparr>"

section \<open>Basic facts\<close>

lemma and_then_simps [simp]:
  "and_then (Inl e) f = Inl e"
  "and_then (Inr x) f = f x"
  by (simp_all add: and_then_def)

lemma and_then_weak_cong: "r = r' \<Longrightarrow> and_then r f = and_then r' f"
  by simp

lemma and_then_eq_Inr: "and_then r f = Inr y \<longleftrightarrow> (\<exists>x. r = Inr x \<and> f x = Inr y)"
  by (cases r) simp_all

lemma get_col_eq_Inl: "get_col df c = Inl e \<longleftrightarrow> c \<notin> set (names df) \<and> e = KeyError c"
proof (cases "map_of (cols df) c")
  case None
  then have "c \<notin> fst ` set (cols df)"
    by (simp add: map_of_eq_None_iff)
  with None show ?thesis
    by (auto simp: get_col_def names_def)
next
  case (Some d)
  then have "c \<in> fst ` set (cols df)"
    by (metis map_of_eq_None_iff option.distinct(1))
  with Some show ?thesis
    by (simp add: get_col_def names_def)
qed

lemma get_col_present: "c \<in> set (names df) \<Longrightarrow> \<exists>d. get_col df c = Inr d"
  using get_col_eq_Inl [of df c] by (cases "get_col df c") auto

lemma drop_present:
  "set labels \<subseteq> set (names df) \<Longrightarrow>
     drop df labels = Inr (df\<lparr>cols := filter (\<lambda>c. fst c \<notin> set labels) (cols df)\<rparr>)"
proof -
  assume "set labels \<subseteq> set (names df)"
  then have "filter (\<lambda>l. l \<notin> set (names df)) labels = []"
    by (auto simp: filter_empty_conv)
  then show ?thesis by (simp add: drop_def)
qed

lemma map_of_filter_fst:
  "map_of (filter (\<lambda>c. P (fst c)) xs) k = (if P k then map_of xs k else None)"
  by (induction xs) auto

lemma map_of_replace:
  "map_of (map (\<lambda>(n, x). if n = c then (n, d) else (n, x)) xs) k
     = (if k = c then (if c \<in> fst ` set xs then Some d else None) else map_of xs k)"
  by (induction xs) (auto split: if_splits)

lemma get_col_set_col [simp]:
  "get_col (set_col df c d) k = (if k = c then Inr d else get_col df k)"
proof (cases "c \<in> set (names df)")
  case True
  then show ?thesis
    by (simp add: get_col_def set_col_def map_of_replace names_def)
next
  case False
  then have "map_of (cols df) c = None"
    by (simp add: names_def map_of_eq_None_iff)
  with False show ?thesis
    by (simp add: get_col_def set_col_def map_add_def split: option.splits)
qed

lemma names_set_col [simp]: "set (names (set_col df c d)) = insert c (set (names df))"
  by (force simp: set_col_def names_def split: if_splits)

lemma nrows_set_col [simp]: "nrows (set_col df c d) = nrows df"
  by (simp add: set_col_def)

lemma get_col_Inr_names: "get_col df c = Inr d \<Longrightarrow> c \<in> set (names df)"
  using get_col_eq_Inl [of df c] by (cases "c \<in> set (names df)") auto

lemma get_col_absent: "c \<notin> set (names df) \<Longrightarrow> get_col df c = Inl (KeyError c)"
  by (simp add: get_col_eq_Inl)

lemma num_col_eq_Inr: "num_col df c = Inr xs \<longleftrightarrow> get_col df c = Inr (NumCol xs)"
  by (cases "get_col df c") (auto simp: num_col_def as_numeric_def split: coldata.splits)

lemma num_col_absent: "c \<notin> set (names df) \<Longrightarrow> num_col df c = Inl (KeyError c)"
  by (simp add: num_col_def get_col_absent)

lemma num_col_set_col [simp]:
  "num_col (set_col df c d) k = (if k = c then as_numeric d else num_col df k)"
  by (simp add: num_col_def)

lemma as_numeric_NumCol [simp]: "as_numeric (NumCol xs) = Inr xs"
  by (simp add: as_numeric_def)

lemma astype_int_numeric [simp]: "as_numeric (astype_int bs) = Inr (map (\<lambda>b. Some (if b then 1 else 0)) bs)"
  by (simp add: astype_int_def)

lemma temporal_features_eq:
  "temporal_features ns ne df =
     and_then (num_col df ''TransactionDT'') (\<lambda>dt.
       Inr (set_col (set_col (set_col (set_col df
         ''hour'' (NumCol (map (map_option (\<lambda>t. pymod (floordiv t 3600) 24)) dt)))
         ''day_of_week'' (NumCol (map (map_option (\<lambda>t. pymod (floordiv t (3600 * 24)) 7)) dt)))
         ''is_weekend'' (astype_int (isin [5, 6] (map (map_option (\<lambda>t. pymod (floordiv t (3600 * 24)) 7)) dt))))
         ''is_night'' (astype_int (or_series
            (ge_scalar (map (map_option (\<lambda>t. pymod (floordiv t 3600) 24)) dt) (of_int ns))
            (lt_scalar (map (map_option (\<lambda>t. pymod (floordiv t 3600) 24)) dt) (of_int ne))))))"
  by (cases "num_col df ''TransactionDT''") (simp_all add: temporal_features_def assign_def)

lemma amount_features_eq:
  "amount_features df =
     and_then (num_col df ''TransactionAmt'') (\<lambda>amt.
       Inr (set_col (set_col (set_col df
         ''amt_log'' (NumCol (map (\<lambda>x. Option.bind x log1p) amt)))
         ''amt_decimal'' (NumCol (map (map_option (\<lambda>x. pymod x 1)) amt)))
         ''is_round_amt'' (astype_int (eq_scalar (map (map_option (\<lambda>x. pymod x 1)) amt) 0))))"
  by (cases "num_col df ''TransactionAmt''") (simp_all add: amount_features_def assign_def)

lemma email_features_eq:
  "email_features df =
     and_then (get_col df ''P_emaildomain'') (\<lambda>p.
     and_then (get_col df ''R_emaildomain'') (\<lambda>r.
       Inr (set_col (set_col (set_col df
         ''P_email_provider'' (email_provider p))
         ''R_email_provider'' (email_provider r))
         ''email_match'' (astype_int (series_eq p r)))))"
  by (cases "get_col df ''P_emaildomain''"; cases "get_col df ''R_emaildomain''")
     (simp_all add: email_features_def assign_def)

lemma concat_singletons: "(\<And>i. i \<in> set xs \<Longrightarrow> f i = [g i]) \<Longrightarrow> concat (map f xs) = map g xs"
  by (induction xs) auto

lemma distinct_all_equal_short:
  assumes "distinct xs" and eq: "\<And>x y. x \<in> set xs \<Longrightarrow> y \<in> set xs \<Longrightarrow> x = y"
  shows "length xs \<le> 1"
proof (cases xs)
  case Nil
  then show ?thesis by simp
next
  case outer: (Cons a ys)
  show ?thesis
  proof (cases ys)
    case Nil
    with outer show ?thesis by simp
  next
    case (Cons b zs)
    with outer assms(1) have "a \<noteq> b" by auto
    moreover from outer Cons have "a = b" by (intro eq) auto
    ultimately show ?thesis by simp
  qed
qed

lemma matches_short: "distinct rk \<Longrightarrow> length (matches rk k) \<le> 1"
proof (rule distinct_all_equal_short)
  show "distinct (matches rk k)" by (simp add: matches_def)
next
  fix x y
  assume "distinct rk" "x \<in> set (matches rk k)" "y \<in> set (matches rk k)"
  then show "x = y"
    by (auto simp: matches_def nth_eq_iff_index_eq)
qed

lemma matches_sound: "j \<in> set (matches rk k) \<Longrightarrow> j < length rk \<and> rk ! j = k"
  by (auto simp: matches_def)

lemma left_join_indexer_distinct:
  assumes "distinct rk"
  shows "left_join_indexer lk rk = map (\<lambda>i. (i, first_match rk (lk ! i))) [0..<length lk]"
  unfolding left_join_indexer_def
proof (rule concat_singletons)
  fix i
  have "length (matches rk (lk ! i)) \<le> 1"
    using assms by (rule matches_short)
  then show "(case matches rk (lk ! i) of [] \<Rightarrow> [(i, None)] | js \<Rightarrow> map (\<lambda>j. (i, Some j)) js)
               = [(i, first_match rk (lk ! i))]"
    by (cases "matches rk (lk ! i)") (auto simp: first_match_def)
qed

lemma take_rows_all: "col_len d = n \<Longrightarrow> take_rows [0..<n] d = d"
  by (cases d) (auto simp: map_nth)

lemma get_col_eq_Inr: "get_col df c = Inr d \<longleftrightarrow> map_of (cols df) c = Some d"
  by (simp add: get_col_def split: option.splits)

lemma wf_get_col: "wf df \<Longrightarrow> get_col df c = Inr d \<Longrightarrow> col_len d = nrows df"
  by (auto simp: wf_def get_col_eq_Inr list_all_iff dest!: map_of_SomeD)

lemma names_set_col_list:
  "names (set_col df c d) = (if c \<in> set (names df) then names df else names df @ [c])"
proof -
  have "map fst (map (\<lambda>(n, x). if n = c then (n, d) else (n, x)) xs) = map fst xs" for xs
    by (induction xs) auto
  then show ?thesis by (simp add: set_col_def names_def)
qed

lemma wf_set_col: "wf df \<Longrightarrow> col_len d = nrows df \<Longrightarrow> wf (set_col df c d)"
  unfolding wf_def names_set_col_list
  by (auto simp: set_col_def list_all_iff)

lemma merge_left_Inr:
  assumes "merge_left l r key = Inr out"
  obtains lk rk where "get_col l key = Inr lk" "get_col r key = Inr rk"
    "count_list (names r) key \<le> 1"
    "joined (left_join_indexer (cells lk) (cells rk))
       (filter (\<lambda>n. n \<in> set (names r) \<and> n \<noteq> key) (names l))
       (cols l) (filter (\<lambda>c. fst c \<noteq> key) (cols r)) = Inr out"
  using assms unfolding merge_left_def
  by (auto simp: and_then_eq_Inr split: if_splits)

lemma joined_Inr:
  assumes "joined ix ov lc rc = Inr out"
  shows "distinct (map (\<lambda>c. suffixed ov ''_x'' (fst c)) lc)"
    and "distinct (map (\<lambda>c. suffixed ov ''_y'' (fst c)) rc)"
    and "nrows out = length ix"
    and "cols out = map (\<lambda>c. (suffixed ov ''_x'' (fst c), take_rows (map fst ix) (snd c))) lc
                  @ map (\<lambda>c. (suffixed ov ''_y'' (fst c), take_rows_opt (map snd ix) (snd c))) rc"
  using assms by (auto simp: joined_def split: if_splits)

lemma joined_left_col:
  assumes j: "joined ix ov lc rc = Inr out" and c: "map_of lc c = Some d" and ov: "c \<notin> set ov"
  shows "get_col out c = Inr (take_rows (map fst ix) d)"
proof -
  let ?L = "map (\<lambda>c. (suffixed ov ''_x'' (fst c), take_rows (map fst ix) (snd c))) lc"
  have "(c, d) \<in> set lc" using c by (rule map_of_SomeD)
  then have "(c, take_rows (map fst ix) d) \<in> set ?L"
    using ov by (force simp: suffixed_def)
  moreover have "distinct (map fst ?L)"
    using joined_Inr(1) [OF j] by (simp add: comp_def)
  ultimately have "map_of ?L c = Some (take_rows (map fst ix) d)"
    by (rule map_of_is_SomeI [rotated])
  then show ?thesis
    by (simp add: get_col_eq_Inr joined_Inr(4) [OF j] map_add_Some_iff)
qed

lemma joined_right_col:
  assumes j: "joined ix ov lc rc = Inr out" and c: "map_of rc c = Some d" and ov: "c \<notin> set ov"
    and fresh: "\<And>n. n \<in> fst ` set lc \<Longrightarrow> suffixed ov ''_x'' n \<noteq> c"
  shows "get_col out c = Inr (take_rows_opt (map snd ix) d)"
proof -
  let ?L = "map (\<lambda>c. (suffixed ov ''_x'' (fst c), take_rows (map fst ix) (snd c))) lc"
  let ?R = "map (\<lambda>c. (suffixed ov ''_y'' (fst c), take_rows_opt (map snd ix) (snd c))) rc"
  have "(c, d) \<in> set rc" using c by (rule map_of_SomeD)
  then have "(c, take_rows_opt (map snd ix) d) \<in> set ?R"
    using ov by (force simp: suffixed_def)
  moreover have "distinct (map fst ?R)"
    using joined_Inr(2) [OF j] by (simp add: comp_def)
  ultimately have "map_of ?R c = Some (take_rows_opt (map snd ix) d)"
    by (rule map_of_is_SomeI [rotated])
  moreover have "map_of ?L c = None"
    using fresh by (force simp: map_of_eq_None_iff)
  ultimately show ?thesis
    by (simp add: get_col_eq_Inr joined_Inr(4) [OF j] map_add_Some_iff)
qed

lemma and_then_assoc: "and_then (and_then r f) g = and_then r (\<lambda>x. and_then (f x) g)"
  by (cases r) simp_all

lemma and_then_eq_Inl:
  "and_then r f = Inl e \<longleftrightarrow> r = Inl e \<or> (\<exists>x. r = Inr x \<and> f x = Inl e)"
  by (cases r) simp_all

lemma engineer_features_eq:
  "engineer_features fmt df ps =
     and_then (require ''night_hours_start'' (night_hours_start ps)) (\<lambda>night_start.
     and_then (require ''night_hours_end'' (night_hours_end ps)) (\<lambda>night_end.
     and_then (require ''card_group_column'' (card_group_column ps)) (\<lambda>card_col.
     and_then (pre_aggregate fmt night_start night_end df) (card_aggregates card_col))))"
  by (simp add: engineer_features_def pre_aggregate_def and_then_assoc)

lemma pre_aggregate_eq:
  "pre_aggregate fmt ns ne df =
     and_then (num_col df ''TransactionDT'') (\<lambda>dt.
     and_then (num_col df ''TransactionAmt'') (\<lambda>amt.
     and_then (get_col df ''P_emaildomain'') (\<lambda>p.
     and_then (get_col df ''R_emaildomain'') (\<lambda>r.
     and_then (get_col df ''card1'') (\<lambda>c1.
     and_then (get_col df ''card2'') (\<lambda>c2.
     and_then (get_col df ''card3'') (\<lambda>c3.
     and_then (get_col df ''card4'') (\<lambda>c4.
     and_then (get_col df ''card5'') (\<lambda>c5.
     and_then (get_col df ''card6'') (\<lambda>c6.
     Inr (with_features fmt ns ne df dt amt p r [c1, c2, c3, c4, c5, c6])))))))))))"
  unfolding pre_aggregate_def temporal_features_eq amount_features_eq
    email_features_eq card_id_feature_def assign_def with_features_def card_id_column_def hours_def
  by (simp add: and_then_assoc)

lemma require_eq_Inl: "require k v = Inl e \<longleftrightarrow> v = None \<and> e = KeyError k"
  by (cases v) (auto simp: require_def)

lemma require_eq_Inr: "require k v = Inr x \<longleftrightarrow> v = Some x"
  by (cases v) (auto simp: require_def)

lemma num_col_eq_Inl:
  "num_col df c = Inl e \<longleftrightarrow>
     (c \<notin> set (names df) \<and> e = KeyError c) \<or> (\<exists>xs. get_col df c = Inr (ObjectCol xs) \<and> e = TypeError)"
proof (cases "get_col df c")
  case (Inl e')
  then have "c \<notin> set (names df)" "e' = KeyError c"
    by (simp_all add: get_col_eq_Inl)
  with Inl show ?thesis
    by (auto simp: num_col_def)
next
  case (Inr d)
  then have "c \<in> set (names df)"
    by (rule get_col_Inr_names)
  with Inr show ?thesis
    by (cases d) (auto simp: num_col_def as_numeric_def)
qed

lemma pre_aggregate_Inr_required:
  assumes "pre_aggregate fmt ns ne df = Inr df'"
  shows "set required_columns \<subseteq> set (names df)"
  using assms unfolding pre_aggregate_eq required_columns_def
  by (auto simp: and_then_eq_Inr num_col_eq_Inr dest!: get_col_Inr_names)

lemma pre_aggregate_Inl:
  assumes "pre_aggregate fmt ns ne df = Inl e"
  shows "(\<exists>k. e = KeyError k) \<or> \<not> not_object df ''TransactionDT'' \<or> \<not> not_object df ''TransactionAmt''"
  using assms unfolding pre_aggregate_eq
  by (auto simp: and_then_eq_Inl num_col_eq_Inl get_col_eq_Inl not_object_def)

lemma engineer_features_Inr:
  assumes "engineer_features fmt df ps = Inr out"
  obtains ns ne cc df' where "night_hours_start ps = Some ns" "night_hours_end ps = Some ne"
    "card_group_column ps = Some cc" "pre_aggregate fmt ns ne df = Inr df'"
    "card_aggregates cc df' = Inr out"
  using assms unfolding engineer_features_eq
  by (auto simp: and_then_eq_Inr require_eq_Inr)

lemma engineer_features_required:
  assumes "\<not> set required_columns \<subseteq> set (names df)"
  shows "\<exists>e. engineer_features fmt df ps = Inl e"
proof (cases "engineer_features fmt df ps")
  case (Inl e)
  then show ?thesis by blast
next
  case (Inr out)
  then show ?thesis
    using assms by (auto elim!: engineer_features_Inr dest!: pre_aggregate_Inr_required)
qed

lemma engineer_features_required_KeyError:
  assumes "\<not> set required_columns \<subseteq> set (names df)"
    and "not_object df ''TransactionDT''" "not_object df ''TransactionAmt''"
  shows "\<exists>k. engineer_features fmt df ps = Inl (KeyError k)"
proof -
  obtain e where e: "engineer_features fmt df ps = Inl e"
    using engineer_features_required [OF assms(1)] by blast
  have "\<exists>k. e = KeyError k"
    using e assms unfolding engineer_features_eq
    by (auto simp: and_then_eq_Inl require_eq_Inl dest: pre_aggregate_Inl pre_aggregate_Inr_required)
  with e show ?thesis by blast
qed

lemma engineer_features_missing_key:
  assumes "night_hours_start ps = None \<or> night_hours_end ps = None \<or> card_group_column ps = None"
  shows "\<exists>k \<in> {''night_hours_start'', ''night_hours_end'', ''card_group_column''}.
           engineer_features fmt df ps = Inl (KeyError k)"
  using assms unfolding engineer_features_def
  by (cases "night_hours_start ps"; cases "night_hours_end ps"; cases "card_group_column ps")
     (auto simp: require_def)

lemma merge_datasets_missing_key:
  assumes "''TransactionID'' \<notin> set (names transactions) \<or> ''TransactionID'' \<notin> set (names identity)"
  shows "merge_datasets transactions identity = Inl (KeyError ''TransactionID'')"
proof (cases "''TransactionID'' \<in> set (names identity)")
  case False
  then show ?thesis
    by (simp add: merge_datasets_def merge_left_def get_col_absent)
next
  case True
  then obtain rk where "get_col identity ''TransactionID'' = Inr rk"
    using get_col_present by blast
  moreover from True assms have "get_col transactions ''TransactionID'' = Inl (KeyError ''TransactionID'')"
    by (simp add: get_col_absent)
  ultimately show ?thesis
    by (simp add: merge_datasets_def merge_left_def)
qed

lemma filter_by_label:
  assumes "distinct (map fst xs)"
  shows "filter (\<lambda>c. fst c \<notin> set (map fst (filter P xs))) xs = filter (\<lambda>c. \<not> P c) xs"
proof (rule filter_cong [OF refl])
  fix c
  assume c: "c \<in> set xs"
  have "fst c \<in> set (map fst (filter P xs)) \<longleftrightarrow> P c"
  proof
    assume "fst c \<in> set (map fst (filter P xs))"
    then obtain x where x: "x \<in> set xs" "P x" "fst x = fst c" by auto
    with assms c have "x = c"
      by (cases x; cases c) (auto dest: eq_key_imp_eq_value)
    with x show "P c" by simp
  next
    assume "P c"
    with c show "fst c \<in> set (map fst (filter P xs))" by force
  qed
  then show "(fst c \<notin> set (map fst (filter P xs))) = (\<not> P c)" by simp
qed

lemmas binary64_eval = binary64_def scale_def exponent_def round_half_even_def bit_length.simps

lemma bit_length_bounds: "0 < n \<Longrightarrow> 2 ^ (bit_length n - 1) \<le> n \<and> n < 2 ^ bit_length n"
proof (induction n rule: bit_length.induct)
  case (1 n)
  show ?case
  proof (cases "n div 2 = 0")
    case True
    with 1(2) have "n = 1" by (cases n) auto
    then show ?thesis by (simp add: bit_length.simps)
  next
    case False
    then have h: "2 ^ (bit_length (n div 2) - 1) \<le> n div 2" "n div 2 < 2 ^ bit_length (n div 2)"
      using 1 by auto
    from False have pos: "0 < bit_length (n div 2)" by (simp add: bit_length.simps [of "n div 2"])
    have b: "bit_length n = Suc (bit_length (n div 2))"
      using 1(2) by (simp add: bit_length.simps [of n])
    have "2 ^ (bit_length n - 1) = 2 * 2 ^ (bit_length (n div 2) - 1)"
      using pos b by (cases "bit_length (n div 2)") simp_all
    also have "\<dots> \<le> 2 * (n div 2)" using h(1) by simp
    also have "\<dots> \<le> n" by simp
    finally have lo: "2 ^ (bit_length n - 1) \<le> n" .
    have "n < 2 * (n div 2) + 2" by presburger
    also have "\<dots> \<le> 2 * 2 ^ bit_length (n div 2)" using h(2) by simp
    finally have "n < 2 ^ bit_length n" by (simp add: b)
    with lo show ?thesis by simp
  qed
qed

lemma scale_powi: "scale k x = x * 2 powi k"
  by (simp add: scale_def power_int_def field_simps power_inverse)

lemma exponent_le:
  assumes "0 < x"
  shows "2 powi exponent x \<le> x"
proof (cases "1 \<le> x")
  case True
  then have p: "0 < nat \<lfloor>x\<rfloor>" by simp
  have "2 powi exponent x = 2 ^ (bit_length (nat \<lfloor>x\<rfloor>) - 1)"
    using True bit_length_bounds [OF p]
    by (cases "bit_length (nat \<lfloor>x\<rfloor>)") (simp_all add: exponent_def power_int_def)
  also have "\<dots> \<le> real (nat \<lfloor>x\<rfloor>)"
    using bit_length_bounds [OF p] by (metis of_nat_le_iff of_nat_numeral of_nat_power)
  also have "\<dots> \<le> x" using True by simp
  finally show ?thesis .
next
  case False
  let ?z = "1 / x" and ?b = "bit_length (nat \<lfloor>1 / x\<rfloor>)"
  from False assms have z: "1 < ?z" by simp
  then have p: "0 < nat \<lfloor>?z\<rfloor>" by simp
  show ?thesis
  proof (cases "?z = 2 ^ (?b - 1)")
    case True
    then have "exponent x = 1 - int ?b" using False by (simp add: exponent_def)
    moreover have "0 < ?b" using p by (simp add: bit_length.simps [of "nat \<lfloor>?z\<rfloor>"])
    ultimately have "2 powi exponent x = 1 / (2 :: real) ^ (?b - 1)"
      by (cases ?b) (simp_all add: power_int_def field_simps power_inverse)
    also have "\<dots> = x" using True [symmetric] assms by simp
    finally show ?thesis by simp
  next
    case F: False
    then have "exponent x = - int ?b" using False by (simp add: exponent_def)
    then have e: "2 powi exponent x = 1 / (2 :: real) ^ ?b"
      by (simp add: power_int_def field_simps power_inverse)
    have "nat \<lfloor>?z\<rfloor> < 2 ^ ?b" using bit_length_bounds [OF p] by simp
    then have "\<lfloor>?z\<rfloor> < 2 ^ ?b" using p by (simp add: nat_less_iff)
    then have "?z < 2 ^ ?b" by (simp add: floor_less_iff)
    then have "1 / 2 ^ ?b < x" using assms by (simp add: field_simps)
    with e show ?thesis by simp
  qed
qed

lemma round_half_even_ge: "\<lfloor>x\<rfloor> \<le> round_half_even x"
  by (simp add: round_half_even_def)

lemma binary64_eq_0_iff [simp]: "binary64 x = 0 \<longleftrightarrow> x = 0"
proof (cases "x = 0")
  case True
  then show ?thesis by (simp add: binary64_def)
next
  case False
  let ?e = "exponent \<bar>x\<bar>"
  let ?s = "scale (52 - ?e) \<bar>x\<bar>"
  from False have "2 powi ?e \<le> \<bar>x\<bar>" by (intro exponent_le) simp
  then have "2 powi ?e * 2 powi (52 - ?e) \<le> \<bar>x\<bar> * 2 powi (52 - ?e)"
    by (intro mult_right_mono) simp_all
  moreover have "2 powi ?e * 2 powi (52 - ?e) = (2 :: real) ^ 52"
    by (simp add: power_int_add [symmetric])
  ultimately have "1 \<le> ?s" by (simp add: scale_powi)
  then have "1 \<le> \<lfloor>?s\<rfloor>" by (simp add: le_floor_iff)
  with round_half_even_ge [of ?s] have "0 < round_half_even ?s" by linarith
  then have "0 < scale (?e - 52) (of_int (round_half_even ?s))"
    by (simp add: scale_powi)
  with False show ?thesis by (simp add: binary64_def sgn_if)
qed

lemma binary64_one [simp]: "binary64 1 = 1"
  by (simp add: binary64_eval)

text \<open>
  \<open>exponent\<close> is the binary exponent, and \<open>binary64 x\<close> is within half a unit in the last
  place of \<open>x\<close>. The values below are those of Python's \<^verbatim>\<open>float.as_integer_ratio\<close>.
\<close>

lemma powi_neg_nat: "(2 :: real) powi (- int n) = 1 / 2 ^ n"
  by (simp add: power_int_minus field_simps)

lemma powi_neg_nat_plus: "(2 :: real) powi (- int n + 1) = 2 * (1 / 2 ^ n)"
proof -
  have "(2 :: real) powi (- int n + 1) = 2 powi (- int n) * 2 powi 1"
    by (rule power_int_add) simp
  then show ?thesis by (simp add: powi_neg_nat)
qed

lemma exponent_less:
  assumes "0 < x"
  shows "x < 2 powi (exponent x + 1)"
proof (cases "1 \<le> x")
  case True
  then have p: "0 < nat \<lfloor>x\<rfloor>" by simp
  let ?b = "bit_length (nat \<lfloor>x\<rfloor>)"
  have "0 < ?b" using p by (simp add: bit_length.simps [of "nat \<lfloor>x\<rfloor>"])
  then have e: "2 powi (exponent x + 1) = (2 :: real) ^ ?b"
    using True by (simp add: exponent_def power_int_def)
  have "nat \<lfloor>x\<rfloor> < 2 ^ ?b" using bit_length_bounds [OF p] by simp
  then have "\<lfloor>x\<rfloor> < 2 ^ ?b" using p by (simp add: nat_less_iff)
  then have "x < 2 ^ ?b" by (simp add: floor_less_iff)
  with e show ?thesis by simp
next
  case False
  let ?z = "1 / x" and ?b = "bit_length (nat \<lfloor>1 / x\<rfloor>)"
  from False assms have z: "1 < ?z" by simp
  then have p: "0 < nat \<lfloor>?z\<rfloor>" by simp
  have b: "0 < ?b" using p by (simp add: bit_length.simps [of "nat \<lfloor>?z\<rfloor>"])
  show ?thesis
  proof (cases "?z = 2 ^ (?b - 1)")
    case True
    then have "exponent x = 1 - int ?b" using False by (simp add: exponent_def)
    with b have "exponent x + 1 = - int (?b - 1) + 1" by simp
    then have "2 powi (exponent x + 1) = 2 * (1 / (2 :: real) ^ (?b - 1))"
      by (simp only: powi_neg_nat_plus)
    also have "1 / (2 :: real) ^ (?b - 1) = x" using True [symmetric] assms by simp
    finally show ?thesis using assms by simp
  next
    case F: False
    then have "exponent x = - int ?b" using False by (simp add: exponent_def)
    with b have "exponent x + 1 = - int (?b - 1)" by simp
    then have e: "2 powi (exponent x + 1) = 1 / (2 :: real) ^ (?b - 1)"
      by (simp only: powi_neg_nat)
    have "2 ^ (?b - 1) \<le> nat \<lfloor>?z\<rfloor>" using bit_length_bounds [OF p] by simp
    then have "(2 :: real) ^ (?b - 1) \<le> real (nat \<lfloor>?z\<rfloor>)"
      by (metis of_nat_le_iff of_nat_numeral of_nat_power)
    also have "real (nat \<lfloor>?z\<rfloor>) = of_int \<lfloor>?z\<rfloor>"
    proof (rule of_nat_nat)
      show "0 \<le> \<lfloor>?z\<rfloor>" using assms by (simp add: zero_le_floor)
    qed
    also have "\<dots> \<le> ?z" by (rule of_int_floor_le)
    finally have "(2 :: real) ^ (?b - 1) < ?z" using F by simp
    then have "x < 1 / 2 ^ (?b - 1)" using assms by (simp add: field_simps)
    with e show ?thesis by simp
  qed
qed

lemma round_half_even_error: "\<bar>of_int (round_half_even x) - x\<bar> \<le> 1 / 2"
  unfolding round_half_even_def by (auto simp: abs_if) linarith+

lemma binary64_error:
  "\<bar>binary64 x - x\<bar> \<le> 2 powi (exponent \<bar>x\<bar> - 53)"
proof (cases "x = 0")
  case True
  then show ?thesis by (simp add: binary64_def)
next
  case False
  let ?e = "exponent \<bar>x\<bar>"
  let ?u = "(2 :: real) powi (?e - 52)"
  let ?s = "\<bar>x\<bar> * 2 powi (52 - ?e)"
  have u: "0 < ?u" by simp
  have su: "?s * ?u = \<bar>x\<bar>"
    by (simp add: power_int_add [symmetric] mult.assoc)
  have "binary64 x = sgn x * (of_int (round_half_even ?s) * ?u)"
    using False by (simp add: binary64_def scale_powi)
  moreover have "x = sgn x * (?s * ?u)"
    unfolding su by (simp add: sgn_if)
  ultimately have "binary64 x - x = sgn x * (of_int (round_half_even ?s) * ?u - ?s * ?u)"
    by (simp only: right_diff_distrib)
  then have "\<bar>binary64 x - x\<bar> = \<bar>sgn x\<bar> * \<bar>of_int (round_half_even ?s) * ?u - ?s * ?u\<bar>"
    by (simp only: abs_mult)
  also have "\<dots> = \<bar>of_int (round_half_even ?s) * ?u - ?s * ?u\<bar>"
    using False by (simp add: sgn_if)
  also have "\<dots> = \<bar>of_int (round_half_even ?s) - ?s\<bar> * ?u"
    by (simp add: left_diff_distrib [symmetric] abs_mult)
  also have "\<dots> \<le> 1 / 2 * ?u"
    using round_half_even_error [of ?s] by (intro mult_right_mono) simp_all
  also have "\<dots> = 2 powi (?e - 53)"
    by (simp add: power_int_diff)
  finally show ?thesis .
qed

lemma binary64_examples:
  "binary64 (1 / 3) = 6004799503160661 / 18014398509481984"
  "binary64 (9 / 10) = 8106479329266893 / 9007199254740992"
  "binary64 (3333333333333333 / 10000000000000000) = 6004799503160661 / 18014398509481984"
  "binary64 (- 2 / 3) = - 6004799503160661 / 9007199254740992"
  "binary64 (1 / 100000) = 5902958103587057 / 590295810358705651712"
  "binary64 (2 ^ 53 + 1) = 2 ^ 53"
  "binary64 (2 ^ 53 + 3) = 2 ^ 53 + 4"
  "binary64 (3 / 2) = 3 / 2"
  by (simp_all add: binary64_eval)

lemma handle_missing_values_eq:
  assumes "distinct (names df)"
  shows "handle_missing_values df ps =
     Inr (df\<lparr>cols := map (\<lambda>(n, d). (n, fill_missing d))
            (filter (\<lambda>c. \<not> exceeds (missing_pct (nrows df) (snd c))
                           (binary64 (get_or (missing_threshold ps) (9 / 10)))) (cols df))\<rparr>)"
proof -
  let ?P = "\<lambda>c. exceeds (missing_pct (nrows df) (snd c)) (binary64 (get_or (missing_threshold ps) (9 / 10)))"
  have "set (map fst (filter ?P (cols df))) \<subseteq> set (names df)"
    by (auto simp: names_def)
  then have "drop df (map fst (filter ?P (cols df)))
      = Inr (df\<lparr>cols := filter (\<lambda>c. fst c \<notin> set (map fst (filter ?P (cols df)))) (cols df)\<rparr>)"
    by (rule drop_present)
  also have "filter (\<lambda>c. fst c \<notin> set (map fst (filter ?P (cols df)))) (cols df)
      = filter (\<lambda>c. \<not> ?P c) (cols df)"
    using assms unfolding names_def by (rule filter_by_label)
  finally show ?thesis
    by (simp add: handle_missing_values_def Let_def)
qed

lemma sort_eq_Nil_iff: "sort xs = [] \<longleftrightarrow> xs = []"
  by (metis length_sort length_0_conv)

lemma median_eq_None: "median xs = None \<longleftrightarrow> xs = []"
proof (cases "xs = []")
  case True
  then show ?thesis by (simp add: median_def)
next
  case False
  show ?thesis
  proof (cases "odd (length xs)")
    case True
    with False have "median xs = Some (sort xs ! (length xs div 2))"
      by (simp add: median_def Let_def sort_eq_Nil_iff)
    with False show ?thesis by simp
  next
    case even: False
    with False have "median xs
        = Some (binary64 (binary64 (sort xs ! (length xs div 2 - 1) + sort xs ! (length xs div 2)) / 2))"
      by (simp add: median_def Let_def sort_eq_Nil_iff)
    with False show ?thesis by simp
  qed
qed

lemma somes_Nil_iff: "somes xs = [] \<longleftrightarrow> (\<forall>x \<in> set xs. x = None)"
  by (induction xs) (auto simp: somes_def split: option.splits)

lemma null_count_fill_object [simp]: "null_count (fill_missing (ObjectCol xs)) = 0"
  by (auto simp: filter_empty_conv split: option.splits)

lemma null_count_fill_num:
  assumes "null_count (NumCol xs) < length xs \<or> xs = []"
  shows "null_count (fill_missing (NumCol xs)) = 0"
proof (cases "xs = []")
  case True
  then show ?thesis by simp
next
  case False
  with assms have "length (filter (\<lambda>x. x = None) xs) < length xs" by simp
  then have "filter (\<lambda>x. x = None) xs \<noteq> xs"
    by auto
  then have "\<not> (\<forall>x \<in> set xs. x = None)"
    using filter_True [of xs "\<lambda>x. x = None"] by blast
  then have "median (somes xs) \<noteq> None"
    by (simp add: median_eq_None somes_Nil_iff)
  then show ?thesis
    by (auto simp: filter_empty_conv split: option.splits)
qed

lemma null_count_fill:
  assumes "null_count d < col_len d \<or> col_len d = 0"
  shows "null_count (fill_missing d) = 0"
  using assms by (cases d) (simp_all add: null_count_fill_num del: fill_missing.simps)

lemma not_exceeds_iff:
  "\<not> exceeds (missing_pct n d) t \<longleftrightarrow>
     n = 0 \<or> binary64 (binary64 (real (null_count d)) / binary64 (real n)) \<le> t"
  by (auto simp: exceeds_def missing_pct_def)

lemma missing_pct_full: "0 < n \<Longrightarrow> null_count d = n \<Longrightarrow> missing_pct n d = Some 1"
  by (simp add: missing_pct_def)

lemma set_somes: "set (somes xs) = {v. Some v \<in> set xs}"
  by (induction xs) (auto simp: somes_def split: option.splits)

lemma value_counts_set: "fst ` set (value_counts tie xs) = set (somes xs)"
  by (force simp: value_counts_def Let_def)

lemma value_counts_snd:
  "p \<in> set (value_counts tie xs) \<Longrightarrow> snd p = count_list (somes xs) (fst p)"
  by (auto simp: value_counts_def Let_def)

lemma value_counts_distinct: "distinct (map fst (value_counts tie xs))"
proof -
  let ?us = "rev (remdups (rev (somes xs)))"
  let ?ys = "map (\<lambda>v. (v, count_list (somes xs) v)) ?us"
  have "distinct (map fst ?ys)"
    by (simp add: comp_def)
  then have "distinct ?ys" "inj_on fst (set ?ys)"
    by (simp_all only: distinct_map)
  then have "distinct (sort_key (\<lambda>p. - int (snd p)) (sort_key (\<lambda>p. tie xs (fst p)) ?ys))"
    "inj_on fst (set (sort_key (\<lambda>p. - int (snd p)) (sort_key (\<lambda>p. tie xs (fst p)) ?ys)))"
    by simp_all
  then show ?thesis
    unfolding value_counts_def Let_def by (simp only: distinct_map simp_thms)
qed

lemma value_counts_length: "length (value_counts tie xs) = nunique xs"
proof -
  have "length (remdups (rev (somes xs))) = length (remdups (somes xs))"
    by (simp add: length_remdups_card_conv)
  then show ?thesis
    by (simp add: value_counts_def Let_def nunique_def)
qed

lemma value_counts_sorted: "sorted (map (\<lambda>p. - int (snd p)) (value_counts tie xs))"
  by (simp add: value_counts_def Let_def)

lemma top_categories:
  fixes tie :: "string option list \<Rightarrow> string \<Rightarrow> nat"
  assumes "10 < nunique xs"
  defines "tops \<equiv> map fst (take 10 (value_counts tie xs))"
  shows "length tops = 10" "distinct tops" "set tops \<subseteq> set (somes xs)"
    "\<And>v t. v \<in> set (somes xs) - set tops \<Longrightarrow> t \<in> set tops
        \<Longrightarrow> count_list (somes xs) v \<le> count_list (somes xs) t"
proof -
  let ?vc = "value_counts tie xs"
  have split: "?vc = take 10 ?vc @ List.drop 10 ?vc" by simp
  show "length tops = 10"
    using assms by (simp add: value_counts_length)
  have "distinct (map fst (take 10 ?vc) @ map fst (List.drop 10 ?vc))"
    using value_counts_distinct [of tie xs] by (simp only: map_append [symmetric] append_take_drop_id)
  then show "distinct tops"
    by (simp add: tops_def)
  have "set tops \<subseteq> fst ` set ?vc"
    unfolding tops_def by (auto dest: in_set_takeD)
  then show "set tops \<subseteq> set (somes xs)"
    by (simp add: value_counts_set)
  fix v t
  assume v: "v \<in> set (somes xs) - set tops" and t: "t \<in> set tops"
  from t obtain a where a: "a \<in> set (take 10 ?vc)" "fst a = t"
    by (auto simp: tops_def)
  from v have "v \<in> fst ` set ?vc" "v \<notin> fst ` set (take 10 ?vc)"
    by (auto simp: value_counts_set tops_def)
  then have "v \<in> fst ` set (List.drop 10 ?vc)"
    using set_append [of "take 10 ?vc" "List.drop 10 ?vc"] by (auto simp del: set_append)
  then obtain b where b: "b \<in> set (List.drop 10 ?vc)" "fst b = v"
    by auto
  have "sorted (map (\<lambda>p. - int (snd p)) (take 10 ?vc) @ map (\<lambda>p. - int (snd p)) (List.drop 10 ?vc))"
    using value_counts_sorted [of tie xs] by (simp only: map_append [symmetric] append_take_drop_id)
  with a(1) b(1) have "- int (snd a) \<le> - int (snd b)"
    by (auto simp: sorted_append)
  moreover have "snd a = count_list (somes xs) t"
    using a value_counts_snd [of a tie xs] by (auto dest: in_set_takeD)
  moreover have "snd b = count_list (somes xs) v"
    using b value_counts_snd [of b tie xs] by (auto dest: in_set_dropD)
  ultimately show "count_list (somes xs) v \<le> count_list (somes xs) t"
    by simp
qed

lemma dummies_length:
  "length (dummies n xs) = nunique xs - 1"
proof -
  have "length (sort (remdups (somes xs))) = nunique xs"
    by (simp add: nunique_def)
  then show ?thesis
    by (cases "sort (remdups (somes xs))") (simp_all add: dummies_def)
qed

lemma dummies_binary: "c \<in> set (dummies n xs) \<Longrightarrow> binary (snd c) \<and> col_len (snd c) = length xs"
  by (cases "sort (remdups (somes xs))") (auto simp: dummies_def binary_def list_all_iff)

lemma object_columns_set:
  "(n, xs) \<in> set (object_columns df) \<longleftrightarrow> (n, ObjectCol xs) \<in> set (cols df)"
  by (force simp: object_columns_def split: coldata.splits)

lemma encode_categorical_variables_eq:
  "encode_categorical_variables tie df ps =
     (if cols df = [] then Inl ValueError
      else Inr (df\<lparr>cols :=
        filter (\<lambda>c. fst c \<notin> fst ` set (categorical_columns df ps)) (cols df)
        @ concat (map (\<lambda>(n, xs). dummies n (cap_categories tie xs)) (categorical_columns df ps))\<rparr>))"
  by (simp add: encode_categorical_variables_def categorical_columns_def Let_def comp_def
      case_prod_unfold)

lemma passes_through:
  assumes wf: "wf df" and c: "(n, d) \<in> set (cols df)"
    and kind: "n \<in> set (get_or (encoding_exclude ps) []) \<or> (\<exists>xs. d = NumCol xs)"
  shows "map_of (filter (\<lambda>c. fst c \<notin> fst ` set (categorical_columns df ps)) (cols df) @ rest) n
           = Some d"
proof -
  from wf have dist: "distinct (map fst (cols df))"
    by (simp add: wf_def names_def)
  have "n \<notin> fst ` set (categorical_columns df ps)"
  proof
    assume "n \<in> fst ` set (categorical_columns df ps)"
    then obtain xs where xs: "(n, ObjectCol xs) \<in> set (cols df)"
      "n \<notin> set (get_or (encoding_exclude ps) [])"
      by (auto simp: categorical_columns_def object_columns_set)
    with dist c have "d = ObjectCol xs"
      by (auto dest: eq_key_imp_eq_value)
    with kind xs(2) show False by auto
  qed
  moreover have "map_of (cols df) n = Some d"
    using dist c by (rule map_of_is_SomeI)
  ultimately have "map_of (filter (\<lambda>c. fst c \<notin> fst ` set (categorical_columns df ps)) (cols df)) n
      = Some d"
    using map_of_filter_fst [of "\<lambda>k. k \<notin> fst ` set (categorical_columns df ps)" "cols df" n]
    by simp
  then show ?thesis
    by (simp add: map_add_Some_iff)
qed

lemma length_somes_le: "length (somes xs) \<le> length xs"
  by (induction xs) (auto simp: somes_def split: option.splits)

lemma length_filter_zip_le:
  "length (filter (\<lambda>p. fst p = k) (zip ks vs)) \<le> count_list ks k"
proof (induction ks arbitrary: vs)
  case Nil
  then show ?case by simp
next
  case (Cons a ks)
  show ?case
  proof (cases vs)
    case Nil
    then show ?thesis by simp
  next
    case (Cons v vs')
    with Cons.IH [of vs'] show ?thesis by auto
  qed
qed

lemma group_values_short: "length (group_values ks vs g) \<le> count_list ks (Some g)"
proof -
  have "length (group_values ks vs g) \<le> length (filter (\<lambda>p. fst p = Some g) (zip ks vs))"
    unfolding group_values_def using length_somes_le [of "map snd (filter (\<lambda>p. fst p = Some g) (zip ks vs))"]
    by simp
  also have "\<dots> \<le> count_list ks (Some g)"
    by (rule length_filter_zip_le)
  finally show ?thesis .
qed

lemma agg_std_single: "count_list ks (Some g) \<le> 1 \<Longrightarrow> agg_std (group_values ks vs g) = None"
  using group_values_short [of ks vs g] by (simp add: agg_std_def)

lemma count_list_map_inj:
  "inj f \<Longrightarrow> count_list (map f xs) (f x) = count_list xs x"
  by (induction xs) (auto dest: injD)

lemma group_keys_distinct: "distinct (group_keys ks)"
  by (simp add: group_keys_def)

lemma names_card_freq: "names (card_freq cc keys vals) = cc # aggregate_names"
  by (cases keys) (simp_all add: names_def agg_frame_def aggregate_names_def)

lemma length_cells [simp]: "length (cells d) = col_len d"
  by (cases d) simp_all

lemma col_len_take_rows [simp]: "col_len (take_rows ix d) = length ix"
  by (cases d) simp_all

lemma col_len_take_rows_opt [simp]: "col_len (take_rows_opt ix d) = length ix"
  by (cases d) simp_all

lemma first_match_Some: "first_match rk k = Some j \<Longrightarrow> j < length rk \<and> rk ! j = k"
  using matches_sound [of j rk k]
  by (cases "matches rk k") (auto simp: first_match_def)

lemma inj_map_option_Str: "inj (map_option Str)"
proof (rule injI)
  fix x y :: "string option"
  assume "map_option Str x = map_option Str y"
  then show "x = y" by (cases x; cases y) auto
qed

lemma inj_map_option_Num: "inj (map_option Num)"
proof (rule injI)
  fix x y :: "real option"
  assume "map_option Num x = map_option Num y"
  then show "x = y" by (cases x; cases y) auto
qed

lemma card_freq_cols:
  "\<exists>K cnt mean stds.
     cols (card_freq cc keys vals)
       = [(cc, K), (''card_txn_count'', NumCol cnt), (''card_amt_mean'', NumCol mean),
          (''card_amt_std'', NumCol stds)]
     \<and> distinct (cells K) \<and> length stds = length (cells K)
     \<and> (\<forall>j < length (cells K). count_list (cells keys) (cells K ! j) \<le> 1 \<longrightarrow> stds ! j = None)"
proof (cases keys)
  case (ObjectCol ks)
  let ?gk = "group_keys ks"
  let ?K = "ObjectCol (map Some ?gk)"
  let ?stds = "map agg_std (map (group_values ks vals) ?gk)"
  have c: "cells ?K = map (\<lambda>g. Some (Str g)) ?gk"
    by (simp add: comp_def)
  have d: "distinct (cells ?K)"
    unfolding c by (simp add: distinct_map group_keys_distinct inj_on_def)
  have s: "?stds ! j = None" if "j < length (cells ?K)" "count_list (cells keys) (cells ?K ! j) \<le> 1" for j
  proof -
    from that(1) have j: "j < length ?gk" by simp
    have "count_list (cells keys) (cells ?K ! j)
        = count_list (map (map_option Str) ks) (map_option Str (Some (?gk ! j)))"
      using j by (simp add: ObjectCol)
    also have "\<dots> = count_list ks (Some (?gk ! j))"
      using inj_map_option_Str by (rule count_list_map_inj)
    finally have "count_list ks (Some (?gk ! j)) \<le> 1"
      using that(2) by simp
    then show ?thesis
      using j by (simp add: agg_std_single)
  qed
  show ?thesis
    apply (rule exI [of _ ?K], rule exI [of _ "map agg_count (map (group_values ks vals) ?gk)"],
        rule exI [of _ "map agg_mean (map (group_values ks vals) ?gk)"], rule exI [of _ ?stds])
    apply (intro conjI)
    subgoal by (simp add: ObjectCol agg_frame_def)
    subgoal by (rule d)
    subgoal by simp
    subgoal using s by blast
    done
next
  case (NumCol ks)
  let ?gk = "group_keys ks"
  let ?K = "NumCol (map Some ?gk)"
  let ?stds = "map agg_std (map (group_values ks vals) ?gk)"
  have c: "cells ?K = map (\<lambda>g. Some (Num g)) ?gk"
    by (simp add: comp_def)
  have d: "distinct (cells ?K)"
    unfolding c by (simp add: distinct_map group_keys_distinct inj_on_def)
  have s: "?stds ! j = None" if "j < length (cells ?K)" "count_list (cells keys) (cells ?K ! j) \<le> 1" for j
  proof -
    from that(1) have j: "j < length ?gk" by simp
    have "count_list (cells keys) (cells ?K ! j)
        = count_list (map (map_option Num) ks) (map_option Num (Some (?gk ! j)))"
      using j by (simp add: NumCol)
    also have "\<dots> = count_list ks (Some (?gk ! j))"
      using inj_map_option_Num by (rule count_list_map_inj)
    finally have "count_list ks (Some (?gk ! j)) \<le> 1"
      using that(2) by simp
    then show ?thesis
      using j by (simp add: agg_std_single)
  qed
  show ?thesis
    apply (rule exI [of _ ?K], rule exI [of _ "map agg_count (map (group_values ks vals) ?gk)"],
        rule exI [of _ "map agg_mean (map (group_values ks vals) ?gk)"], rule exI [of _ ?stds])
    apply (intro conjI)
    subgoal by (simp add: NumCol agg_frame_def)
    subgoal by (rule d)
    subgoal by simp
    subgoal using s by blast
    done
qed

lemma not_suffix_x: "n @ ''_x'' \<noteq> ''card_amt_std''"
proof
  assume "n @ ''_x'' = ''card_amt_std''"
  then have "last (n @ ''_x'') = last ''card_amt_std''" by (rule arg_cong)
  then show False by simp
qed

lemma card_aggregates_Inr:
  assumes ret: "card_aggregates cc df = Inr out" and wf: "wf df"
  obtains keys stds where
    "get_col df cc = Inr keys"
    "cc \<notin> set aggregate_names"
    "nrows out = nrows df"
    "\<And>c d. get_col df c = Inr d \<Longrightarrow> c \<notin> set aggregate_names \<Longrightarrow> get_col out c = Inr d"
    "\<And>c. c \<in> set (cols out) \<Longrightarrow> col_len (snd c) = nrows out"
    "''card_amt_std'' \<notin> set (names df) \<Longrightarrow> get_col out ''card_amt_std'' = Inr (NumCol stds)"
    "length stds = nrows df"
    "\<And>i. i < nrows df \<Longrightarrow> count_list (cells keys) (cells keys ! i) = 1 \<Longrightarrow> stds ! i = None"
proof -
  from ret obtain keys vals where keys: "get_col df cc = Inr keys"
    and m: "merge_left df (card_freq cc keys vals) cc = Inr out"
    by (auto simp: card_aggregates_def and_then_eq_Inr)
  let ?R = "card_freq cc keys vals"
  obtain K cnt mean gstds where R: "cols ?R = [(cc, K), (''card_txn_count'', NumCol cnt),
          (''card_amt_mean'', NumCol mean), (''card_amt_std'', NumCol gstds)]"
    and dK: "distinct (cells K)" and lg: "length gstds = length (cells K)"
    and single: "\<And>j. j < length (cells K) \<Longrightarrow> count_list (cells keys) (cells K ! j) \<le> 1
                   \<Longrightarrow> gstds ! j = None"
    using card_freq_cols [of cc keys vals] by blast
  let ?ix = "left_join_indexer (cells keys) (cells K)"
  let ?ov = "filter (\<lambda>n. n \<in> set (names ?R) \<and> n \<noteq> cc) (names df)"
  let ?rc = "filter (\<lambda>c. fst c \<noteq> cc) (cols ?R)"
  have rk: "get_col ?R cc = Inr K"
    by (simp add: get_col_def R)
  from m keys rk have cnt1: "count_list (names ?R) cc \<le> 1"
    and j: "joined ?ix ?ov (cols df) ?rc = Inr out"
    by (auto elim!: merge_left_Inr)
  from cnt1 have cc: "cc \<notin> set aggregate_names"
    by (auto simp: names_card_freq aggregate_names_def split: if_splits)
  have n: "col_len keys = nrows df"
    using wf keys by (rule wf_get_col)
  have ix: "?ix = map (\<lambda>i. (i, first_match (cells K) (cells keys ! i))) [0..<nrows df]"
    using left_join_indexer_distinct [OF dK, of "cells keys"] by (simp add: n)
  have fst_ix: "map fst ?ix = [0..<nrows df]"
    unfolding ix by (simp add: comp_def map_idI)
  have rows: "nrows out = nrows df"
    using joined_Inr(3) [OF j] by (simp add: ix)
  have ov: "set ?ov \<subseteq> set aggregate_names \<inter> set (names df)"
    by (auto simp: names_card_freq)
  have left: "get_col out c = Inr d" if "get_col df c = Inr d" "c \<notin> set aggregate_names" for c d
  proof -
    from that(1) have "map_of (cols df) c = Some d"
      by (simp add: get_col_eq_Inr)
    moreover from that(2) ov have "c \<notin> set ?ov" by blast
    ultimately have "get_col out c = Inr (take_rows (map fst ?ix) d)"
      by (rule joined_left_col [OF j])
    moreover have "col_len d = nrows df"
      using wf that(1) by (rule wf_get_col)
    ultimately show ?thesis
      by (simp add: fst_ix take_rows_all)
  qed
  have lens: "col_len (snd c) = nrows out" if "c \<in> set (cols out)" for c
    using that unfolding joined_Inr(4) [OF j] joined_Inr(3) [OF j] by auto
  let ?stds = "map (\<lambda>j. case j of None \<Rightarrow> None | Some j \<Rightarrow> gstds ! j) (map snd ?ix)"
  have right: "get_col out ''card_amt_std'' = Inr (NumCol ?stds)"
    if fresh: "''card_amt_std'' \<notin> set (names df)"
  proof -
    have "?rc = [(''card_txn_count'', NumCol cnt), (''card_amt_mean'', NumCol mean),
          (''card_amt_std'', NumCol gstds)]"
      using cc by (auto simp: R aggregate_names_def)
    then have "map_of ?rc ''card_amt_std'' = Some (NumCol gstds)"
      by simp
    moreover from fresh ov have "''card_amt_std'' \<notin> set ?ov" by blast
    moreover have "suffixed ?ov ''_x'' n \<noteq> ''card_amt_std''" if "n \<in> fst ` set (cols df)" for n
    proof -
      from that fresh have "n \<noteq> ''card_amt_std''"
        unfolding names_def set_map by blast
      then show ?thesis
        unfolding suffixed_def using not_suffix_x [of n] by (simp split: if_splits)
    qed
    ultimately have "get_col out ''card_amt_std'' = Inr (take_rows_opt (map snd ?ix) (NumCol gstds))"
      by (rule joined_right_col [OF j])
    then show ?thesis by simp
  qed
  have len: "length ?stds = nrows df"
    by (simp add: ix)
  have nan: "?stds ! i = None"
    if i: "i < nrows df" and one: "count_list (cells keys) (cells keys ! i) = 1" for i
  proof -
    have at: "map snd ?ix ! i = first_match (cells K) (cells keys ! i)"
      using i by (simp add: ix)
    show ?thesis
    proof (cases "first_match (cells K) (cells keys ! i)")
      case None
      with at i show ?thesis by (simp add: ix)
    next
      case (Some j)
      then have "j < length (cells K)" "cells K ! j = cells keys ! i"
        using first_match_Some by blast+
      with one have "gstds ! j = None"
        by (intro single) simp_all
      with Some at i show ?thesis by (simp add: ix)
    qed
  qed
  show ?thesis
    using keys cc rows left lens right len nan by (rule that)
qed

lemma pre_aggregate_Inr:
  assumes "pre_aggregate fmt ns ne df = Inr df'"
  obtains dt amt p r c1 c2 c3 c4 c5 c6 where
    "get_col df ''TransactionDT'' = Inr (NumCol dt)"
    "get_col df ''TransactionAmt'' = Inr (NumCol amt)"
    "get_col df ''P_emaildomain'' = Inr p"
    "get_col df ''R_emaildomain'' = Inr r"
    "get_col df ''card1'' = Inr c1" "get_col df ''card2'' = Inr c2" "get_col df ''card3'' = Inr c3"
    "get_col df ''card4'' = Inr c4" "get_col df ''card5'' = Inr c5" "get_col df ''card6'' = Inr c6"
    "df' = with_features fmt ns ne df dt amt p r [c1, c2, c3, c4, c5, c6]"
  using assms unfolding pre_aggregate_eq
  by (auto simp: and_then_eq_Inr num_col_eq_Inr)

lemma col_len_astype_int [simp]: "col_len (astype_int bs) = length bs"
  by (simp add: astype_int_def)

lemma col_len_email_provider [simp]: "col_len (email_provider d) = col_len d"
  by (cases d) simp_all

lemma length_astype_str [simp]: "length (astype_str f d) = col_len d"
  by (cases d) simp_all

lemma length_series_eq [simp]: "length (series_eq a b) = min (col_len a) (col_len b)"
  by (simp add: series_eq_def)

lemma with_features_wf:
  assumes "wf df" "length dt = nrows df" "length amt = nrows df" "col_len p = nrows df"
    "col_len r = nrows df" "\<And>c. c \<in> set [c1, c2, c3, c4, c5, c6] \<Longrightarrow> col_len c = nrows df"
  shows "wf (with_features fmt ns ne df dt amt p r [c1, c2, c3, c4, c5, c6])"
  unfolding with_features_def
  using assms
  by (intro wf_set_col)
     (simp_all add: hours_def isin_def or_series_def ge_scalar_def lt_scalar_def eq_scalar_def
       card_id_column_def str_add_def str_add_scalar_def)

lemma engineer_features_facts:
  assumes wf: "wf df" and ret: "engineer_features fmt df ps = Inr out"
  obtains ns ne cc dt p r keys stds where
    "night_hours_start ps = Some ns" "night_hours_end ps = Some ne" "card_group_column ps = Some cc"
    "get_col df ''TransactionDT'' = Inr (NumCol dt)" "length dt = nrows df"
    "get_col df ''P_emaildomain'' = Inr p" "col_len p = nrows df"
    "get_col df ''R_emaildomain'' = Inr r" "col_len r = nrows df"
    "nrows out = nrows df"
    "\<And>c. c \<in> set (cols out) \<Longrightarrow> col_len (snd c) = nrows out"
    "get_col out ''hour'' = Inr (NumCol (hours dt))"
    "get_col out ''is_night'' = Inr (astype_int (or_series (ge_scalar (hours dt) (of_int ns))
                                                           (lt_scalar (hours dt) (of_int ne))))"
    "get_col out ''email_match'' = Inr (astype_int (series_eq p r))"
    "get_col out cc = Inr keys" "col_len keys = nrows df"
    "''card_amt_std'' \<notin> set (names df) \<Longrightarrow> get_col out ''card_amt_std'' = Inr (NumCol stds)"
    "length stds = nrows df"
    "\<And>i. i < nrows df \<Longrightarrow> count_list (cells keys) (cells keys ! i) = 1 \<Longrightarrow> stds ! i = None"
proof -
  from ret obtain ns ne cc df' where ps: "night_hours_start ps = Some ns"
      "night_hours_end ps = Some ne" "card_group_column ps = Some cc"
    and pre: "pre_aggregate fmt ns ne df = Inr df'"
    and agg: "card_aggregates cc df' = Inr out"
    by (rule engineer_features_Inr)
  from pre obtain dt amt p r c1 c2 c3 c4 c5 c6 where
    src: "get_col df ''TransactionDT'' = Inr (NumCol dt)"
      "get_col df ''TransactionAmt'' = Inr (NumCol amt)"
      "get_col df ''P_emaildomain'' = Inr p"
      "get_col df ''R_emaildomain'' = Inr r"
      "get_col df ''card1'' = Inr c1" "get_col df ''card2'' = Inr c2" "get_col df ''card3'' = Inr c3"
      "get_col df ''card4'' = Inr c4" "get_col df ''card5'' = Inr c5" "get_col df ''card6'' = Inr c6"
    and df': "df' = with_features fmt ns ne df dt amt p r [c1, c2, c3, c4, c5, c6]"
    by (rule pre_aggregate_Inr)
  note len = src [THEN wf_get_col [OF wf]]
  have wf': "wf df'"
    unfolding df' using wf len by (intro with_features_wf) auto
  have rows': "nrows df' = nrows df"
    by (simp add: df' with_features_def)
  have names': "''card_amt_std'' \<notin> set (names df')" if "''card_amt_std'' \<notin> set (names df)"
    using that by (simp add: df' with_features_def)
  have hour: "get_col df' ''hour'' = Inr (NumCol (hours dt))"
    and night: "get_col df' ''is_night'' = Inr (astype_int (or_series
          (ge_scalar (hours dt) (of_int ns)) (lt_scalar (hours dt) (of_int ne))))"
    and email: "get_col df' ''email_match'' = Inr (astype_int (series_eq p r))"
    by (simp_all add: df' with_features_def)
  show ?thesis
  proof (rule card_aggregates_Inr [OF agg wf'])
    fix keys stds
    assume k: "get_col df' cc = Inr keys" "cc \<notin> set aggregate_names"
      and rows: "nrows out = nrows df'"
      and left: "\<And>c d. get_col df' c = Inr d \<Longrightarrow> c \<notin> set aggregate_names \<Longrightarrow> get_col out c = Inr d"
      and lens: "\<And>c. c \<in> set (cols out) \<Longrightarrow> col_len (snd c) = nrows out"
      and std: "''card_amt_std'' \<notin> set (names df') \<Longrightarrow> get_col out ''card_amt_std'' = Inr (NumCol stds)"
        "length stds = nrows df'"
        "\<And>i. i < nrows df' \<Longrightarrow> count_list (cells keys) (cells keys ! i) = 1 \<Longrightarrow> stds ! i = None"
    show ?thesis
    proof (rule that [of ns ne cc dt p r keys stds])
      show "get_col out ''hour'' = Inr (NumCol (hours dt))"
        using hour by (rule left) (simp add: aggregate_names_def)
      show "get_col out ''is_night'' = Inr (astype_int (or_series
            (ge_scalar (hours dt) (of_int ns)) (lt_scalar (hours dt) (of_int ne))))"
        using night by (rule left) (simp add: aggregate_names_def)
      show "get_col out ''email_match'' = Inr (astype_int (series_eq p r))"
        using email by (rule left) (simp add: aggregate_names_def)
      show "get_col out cc = Inr keys"
        using k by (rule left)
      show "col_len keys = nrows df"
        using wf_get_col [OF wf' k(1)] by (simp add: rows')
      show "get_col out ''card_amt_std'' = Inr (NumCol stds)" if "''card_amt_std'' \<notin> set (names df)"
        using that by (intro std names')
      show "stds ! i = None" if "i < nrows df" "count_list (cells keys) (cells keys ! i) = 1" for i
        using that by (intro std) (simp_all add: rows')
    qed (use ps src len rows rows' lens std(2) in simp_all)
  qed
qed

lemma wf_merged_table: "wf merged_table"
  by (simp add: wf_def merged_table_def names_def)

lemma pre_aggregate_merged_table:
  "pre_aggregate plain_fmt 22 6 merged_table =
     Inr (with_features plain_fmt 22 6 merged_table
       [Some 79200, Some 21600, None] [Some 10, Some 20, Some (61 / 2)]
       (ObjectCol [Some ''a.com'', None, Some ''a.com''])
       (ObjectCol [Some ''a.com'', None, Some ''b.com''])
       [NumCol [Some 1, Some 1, Some 2], NumCol [None, None, None], NumCol [None, None, None],
        ObjectCol [Some ''visa'', Some ''visa'', None], NumCol [None, None, None],
        ObjectCol [Some ''debit'', Some ''debit'', Some ''credit'']])"
  by (simp add: pre_aggregate_eq merged_table_def num_col_def get_col_def as_numeric_def)

lemma engineer_features_merged_table:
  "engineer_features plain_fmt merged_table night_params = Inr featured_table"
proof -
  have "engineer_features plain_fmt merged_table night_params
      = and_then (pre_aggregate plain_fmt 22 6 merged_table) (card_aggregates ''card1'')"
    by (simp add: engineer_features_eq night_params_def no_params_def require_def)
  also have "\<dots> = Inr featured_table"
    unfolding pre_aggregate_merged_table and_then_simps
    by (simp add: with_features_def hours_def card_id_column_def merged_table_def featured_table_def
        set_col_def names_def astype_int_def isin_def or_series_def ge_scalar_def lt_scalar_def
        eq_scalar_def pymod_def floordiv_def log1p_def series_eq_def str_add_def str_add_scalar_def
        plain_fmt_def card_aggregates_def get_col_def as_numeric_def merge_left_def joined_def
        suffixed_def left_join_indexer_def matches_def agg_frame_def group_keys_def
        group_values_def agg_count_def agg_mean_def agg_std_def somes_def upt_rec
        power2_eq_square
        cong: and_then_weak_cong)
  finally show ?thesis .
qed

lemma wf_rectangular: "wf df \<Longrightarrow> rectangular df"
  by (simp add: wf_def rectangular_def)

lemma rectangularI: "(\<And>c. c \<in> set (cols df) \<Longrightarrow> col_len (snd c) = nrows df) \<Longrightarrow> rectangular df"
  by (simp add: rectangular_def list_all_iff)

lemma rectangularD: "rectangular df \<Longrightarrow> c \<in> set (cols df) \<Longrightarrow> col_len (snd c) = nrows df"
  by (simp add: rectangular_def list_all_iff)

lemma merge_left_rows:
  assumes m: "merge_left l r key = Inr out" and rk: "get_col r key = Inr rk"
    and d: "distinct (cells rk)" and wf: "wf l"
  shows "nrows out = nrows l" and "rectangular out"
proof -
  from m rk obtain lk where lk: "get_col l key = Inr lk"
    and j: "joined (left_join_indexer (cells lk) (cells rk))
       (filter (\<lambda>n. n \<in> set (names r) \<and> n \<noteq> key) (names l))
       (cols l) (filter (\<lambda>c. fst c \<noteq> key) (cols r)) = Inr out"
    by (auto elim!: merge_left_Inr)
  have "length (left_join_indexer (cells lk) (cells rk)) = col_len lk"
    using left_join_indexer_distinct [OF d, of "cells lk"] by simp
  then show rows: "nrows out = nrows l"
    using joined_Inr(3) [OF j] wf_get_col [OF wf lk] by simp
  show "rectangular out"
    by (rule rectangularI) (auto simp: joined_Inr(4) [OF j] joined_Inr(3) [OF j])
qed

lemma col_len_fill_missing [simp]: "col_len (fill_missing d) = col_len d"
  by (cases d) simp_all

lemma handle_missing_values_rows:
  assumes "handle_missing_values df ps = Inr out"
  shows "nrows out = nrows df" and "rectangular df \<Longrightarrow> rectangular out"
proof -
  from assms obtain labels df' where d: "drop df labels = Inr df'"
    and out: "out = df'\<lparr>cols := map (\<lambda>(n, d). (n, fill_missing d)) (cols df')\<rparr>"
    by (auto simp: handle_missing_values_def Let_def and_then_eq_Inr)
  from d have df': "df' = df\<lparr>cols := filter (\<lambda>c. fst c \<notin> set labels) (cols df)\<rparr>"
    by (simp add: drop_def split: list.splits)
  show "nrows out = nrows df"
    by (simp add: out df')
  show "rectangular out" if "rectangular df"
    using that by (auto simp: out df' rectangular_def list_all_iff)
qed

lemma length_cap_categories [simp]: "length (cap_categories tie xs) = length xs"
  by (simp add: cap_categories_def Let_def)

lemma encode_categorical_variables_rows:
  assumes "encode_categorical_variables tie df ps = Inr out"
  shows "nrows out = nrows df" and "rectangular df \<Longrightarrow> rectangular out"
proof -
  from assms have out: "out = df\<lparr>cols :=
        filter (\<lambda>c. fst c \<notin> fst ` set (categorical_columns df ps)) (cols df)
        @ concat (map (\<lambda>(n, xs). dummies n (cap_categories tie xs)) (categorical_columns df ps))\<rparr>"
    by (simp add: encode_categorical_variables_eq split: if_splits)
  show "nrows out = nrows df"
    by (simp add: out)
  show "rectangular out" if r: "rectangular df"
  proof (rule rectangularI)
    fix c
    assume "c \<in> set (cols out)"
    then consider "c \<in> set (cols df)"
      | n xs where "(n, xs) \<in> set (categorical_columns df ps)" "c \<in> set (dummies n (cap_categories tie xs))"
      by (auto simp: out)
    then show "col_len (snd c) = nrows out"
    proof cases
      case 1
      with r show ?thesis by (simp add: rectangularD out)
    next
      case 2
      then have "(n, ObjectCol xs) \<in> set (cols df)"
        by (simp add: categorical_columns_def object_columns_set)
      with r have "length xs = nrows df"
        by (auto dest: rectangularD)
      with 2(2) show ?thesis
        using dummies_binary [of c n "cap_categories tie xs"] by (simp add: out)
    qed
  qed
qed

lemma engineer_features_rows:
  assumes "wf df" and "engineer_features fmt df ps = Inr out"
  shows "nrows out = nrows df" and "rectangular out"
proof -
  show "nrows out = nrows df"
    using assms by (rule engineer_features_facts)
  show "rectangular out"
  proof (rule engineer_features_facts [OF assms])
    assume "\<And>c. c \<in> set (cols out) \<Longrightarrow> col_len (snd c) = nrows out"
    then show ?thesis by (rule rectangularI)
  qed
qed

lemma handle_missing_values_returns: "\<exists>out. handle_missing_values df ps = Inr out"
proof -
  let ?P = "\<lambda>c. exceeds (missing_pct (nrows df) (snd c)) (binary64 (get_or (missing_threshold ps) (9 / 10)))"
  have "set (map fst (filter ?P (cols df))) \<subseteq> set (names df)"
    by (auto simp: names_def)
  then have "drop df (map fst (filter ?P (cols df)))
      = Inr (df\<lparr>cols := filter (\<lambda>c. fst c \<notin> set (map fst (filter ?P (cols df)))) (cols df)\<rparr>)"
    by (rule drop_present)
  then show ?thesis
    by (simp add: handle_missing_values_def Let_def)
qed

lemma merge_txn_id:
  "merge_datasets txn_table id_table = Inr \<lparr>nrows = 2, cols =
     [(''TransactionID'', NumCol [Some 1, Some 2]), (''isFraud'', NumCol [Some 0, Some 1]),
      (''DeviceType'', ObjectCol [None, Some ''mobile''])]\<rparr>"
  by (simp add: merge_datasets_def merge_left_def txn_table_def id_table_def get_col_def names_def
      joined_def suffixed_def left_join_indexer_def matches_def upt_rec
      cong: and_then_weak_cong)

lemma null_count_cells: "null_count d = count_list (cells d) None"
proof (cases d)
  case (ObjectCol xs)
  have "length (filter (\<lambda>x. x = None) xs) = count_list (map (map_option Str) xs) None"
    by (induction xs) auto
  with ObjectCol show ?thesis by simp
next
  case (NumCol xs)
  have "length (filter (\<lambda>x. x = None) xs) = count_list (map (map_option Num) xs) None"
    by (induction xs) auto
  with NumCol show ?thesis by simp
qed

lemma null_count_eq_0: "null_count d = 0 \<longleftrightarrow> None \<notin> set (cells d)"
  by (cases d) (auto simp: filter_empty_conv)

lemma null_count_le: "null_count d \<le> col_len d"
  by (cases d) simp_all

lemma map_of_filled:
  assumes "distinct (map fst cs)" and "(n, d) \<in> set cs" and "P (n, d)"
  shows "map_of (map (\<lambda>(n, d). (n, f d)) (filter P cs)) n = Some (f d)"
proof (rule map_of_is_SomeI)
  have e: "map fst (map (\<lambda>(n, d). (n, f d)) (filter P cs)) = map fst (filter P cs)"
    by (simp add: comp_def case_prod_unfold)
  show "distinct (map fst (map (\<lambda>(n, d). (n, f d)) (filter P cs)))"
    unfolding e using assms(1) by (rule distinct_map_filter)
  show "(n, f d) \<in> set (map (\<lambda>(n, d). (n, f d)) (filter P cs))"
    using assms(2,3) by force
qed

lemma fill_missing_eq:
  "fill_missing d = (case d of
       ObjectCol xs \<Rightarrow>
         ObjectCol (map (\<lambda>x. case x of None \<Rightarrow> Some ''unknown'' | Some v \<Rightarrow> Some v) xs)
     | NumCol xs \<Rightarrow>
         NumCol (map (\<lambda>x. case x of
             None \<Rightarrow>
               (let s = sort (somes xs); k = length s
                in if k = 0 then None
                   else if odd k then Some (s ! (k div 2))
                   else Some (binary64 (binary64 (s ! (k div 2 - 1) + s ! (k div 2)) / 2)))
           | Some v \<Rightarrow> Some v) xs))"
  by (cases d) (simp_all add: median_def)

lemma nunique_card: "nunique xs = card (set (somes xs))"
  by (simp add: nunique_def length_remdups_card_conv)

lemma dummies_eq:
  "dummies n ys =
     map (\<lambda>level. (n @ ''_'' @ level, NumCol (map (\<lambda>x. Some (if x = Some level then 1 else 0)) ys)))
       (tl (sort (remdups (somes ys))))"
  by (cases "sort (remdups (somes ys))") (simp_all add: dummies_def)

lemma not_encoded_eq:
  assumes "wf df"
  shows "filter (\<lambda>c. fst c \<notin> fst ` set (categorical_columns df ps)) (cols df)
       = filter (\<lambda>(n, d). n \<in> set (get_or (encoding_exclude ps) [])
                   \<or> (case d of NumCol xs \<Rightarrow> True | ObjectCol xs \<Rightarrow> False)) (cols df)"
proof (rule filter_cong [OF refl])
  fix c
  assume c: "c \<in> set (cols df)"
  obtain n d where nd: "c = (n, d)" by (cases c)
  from assms have dist: "distinct (map fst (cols df))"
    by (simp add: wf_def names_def)
  have "n \<in> fst ` set (categorical_columns df ps) \<longleftrightarrow>
      (\<exists>xs. d = ObjectCol xs) \<and> n \<notin> set (get_or (encoding_exclude ps) [])"
  proof
    assume "n \<in> fst ` set (categorical_columns df ps)"
    then obtain xs where xs: "(n, ObjectCol xs) \<in> set (cols df)"
      "n \<notin> set (get_or (encoding_exclude ps) [])"
      by (auto simp: categorical_columns_def object_columns_set)
    with dist c nd have "d = ObjectCol xs"
      by (auto dest: eq_key_imp_eq_value)
    with xs(2) show "(\<exists>xs. d = ObjectCol xs) \<and> n \<notin> set (get_or (encoding_exclude ps) [])"
      by simp
  next
    assume "(\<exists>xs. d = ObjectCol xs) \<and> n \<notin> set (get_or (encoding_exclude ps) [])"
    then obtain xs where xs: "d = ObjectCol xs" "n \<notin> set (get_or (encoding_exclude ps) [])"
      by blast
    with c nd have "(n, xs) \<in> set (categorical_columns df ps)"
      by (simp add: categorical_columns_def object_columns_set)
    then show "n \<in> fst ` set (categorical_columns df ps)"
      by (rule image_eqI [rotated]) simp
  qed
  then show "(fst c \<notin> fst ` set (categorical_columns df ps))
      = (case c of (n, d) \<Rightarrow> n \<in> set (get_or (encoding_exclude ps) [])
                   \<or> (case d of NumCol xs \<Rightarrow> True | ObjectCol xs \<Rightarrow> False))"
    unfolding nd by (cases d) auto
qed

lemma encoded_eq:
  "concat (map (\<lambda>(n, xs). f n xs) (categorical_columns df ps))
     = concat (map (\<lambda>(n, d). case d of
           ObjectCol xs \<Rightarrow> if n \<in> set (get_or (encoding_exclude ps) []) then [] else f n xs
         | NumCol xs \<Rightarrow> []) (cols df))"
proof -
  have "concat (map (\<lambda>(n, xs). f n xs)
          (filter (\<lambda>c. fst c \<notin> E)
            (concat (map (\<lambda>(n, d). case d of ObjectCol xs \<Rightarrow> [(n, xs)] | NumCol _ \<Rightarrow> []) cs))))
     = concat (map (\<lambda>(n, d). case d of
           ObjectCol xs \<Rightarrow> if n \<in> E then [] else f n xs
         | NumCol xs \<Rightarrow> []) cs)" for cs E
    by (induction cs) (auto split: coldata.splits)
  then show ?thesis
    by (simp add: categorical_columns_def object_columns_def)
qed

section \<open>Claims about the Splitter\<close>

text \<open>
  C1. The claim takes the target column out of the feature matrix; \<^verbatim>\<open>split_features_target\<close>
  does not. It drops the configured \<^verbatim>\<open>drop_columns\<close> and nothing else (line 122), so with
  no \<^verbatim>\<open>drop_columns\<close> configured, the default of line 120, the feature matrix is the whole
  input table, the target column \<^verbatim>\<open>isFraud\<close> included: its labels are not the input labels
  minus the target minus \<^verbatim>\<open>drop_columns\<close>.
\<close>

theorem split_features_target_keeps_target:
  "split_features_target fraud_table no_params
     = Inr (\<lparr>nrows = 1, cols = [(''V1'', NumCol [Some 7]), (''isFraud'', NumCol [Some 0])]\<rparr>,
            NumCol [Some 0])
   \<and> get_or (target_column no_params) ''isFraud'' = ''isFraud''
   \<and> get_or (drop_columns no_params) [] = []
   \<and> set (names fraud_table) - {''isFraud''} - set [] = {''V1''}"
  by (auto simp: split_features_target_def no_params_def fraud_table_def names_def get_or_def
      drop_def get_col_def)

text \<open>
  On every table that has the target column the Splitter returns: the labels of the feature
  matrix are the input labels minus \<^verbatim>\<open>drop_columns\<close>, its columns and row count are those
  of the input, and the target vector is the input's target column.
\<close>

lemma split_features_target_columns:
  assumes "get_or (target_column ps) ''isFraud'' \<in> set (names df)"
  shows "\<exists>X y. split_features_target df ps = Inr (X, y)
           \<and> set (names X) = set (names df) - set (get_or (drop_columns ps) [])
           \<and> nrows X = nrows df
           \<and> (\<forall>c \<in> set (names X). get_col X c = get_col df c)
           \<and> get_col df (get_or (target_column ps) ''isFraud'') = Inr y"
proof -
  let ?t = "get_or (target_column ps) ''isFraud''"
  let ?ds = "filter (\<lambda>c. c \<in> set (names df)) (get_or (drop_columns ps) [])"
  let ?X = "df\<lparr>cols := filter (\<lambda>c. fst c \<notin> set ?ds) (cols df)\<rparr>"
  obtain y where y: "get_col df ?t = Inr y"
    using get_col_present [OF assms] by blast
  have d: "drop df ?ds = Inr ?X"
    by (rule drop_present) auto
  have r: "split_features_target df ps = Inr (?X, y)"
    by (simp add: split_features_target_def Let_def d y)
  have n: "set (names ?X) = set (names df) - set (get_or (drop_columns ps) [])"
    by (auto simp: names_def)
  have g: "get_col ?X c = get_col df c" if "c \<in> set (names ?X)" for c
  proof -
    from that have "c \<notin> set ?ds" by (auto simp: names_def)
    then have "map_of (filter (\<lambda>c. fst c \<notin> set ?ds) (cols df)) c = map_of (cols df) c"
      using map_of_filter_fst [of "\<lambda>n. n \<notin> set ?ds" "cols df" c] by simp
    then show ?thesis by (simp add: get_col_def del: set_filter)
  qed
  show ?thesis using r n g y by auto
qed

lemma split_features_target_columns_example:
  "\<exists>X y. split_features_target fraud_table (no_params\<lparr>drop_columns := Some [''isFraud'', ''V9'']\<rparr>)
            = Inr (X, y)
        \<and> set (names X) = {''V1''} \<and> y = NumCol [Some 0]"
  using split_features_target_columns
    [of "no_params\<lparr>drop_columns := Some [''isFraud'', ''V9'']\<rparr>" fraud_table]
  by (auto simp: no_params_def fraud_table_def names_def get_or_def get_col_def)

text \<open>
  C7 (as amended). The Splitter fails if and only if the configured target column is absent
  from its input table, and the failure is then the lookup error for that column. (Other
  stages can fail too; see below.)
\<close>

theorem split_features_target_fails_iff:
  "split_features_target df ps = Inl e \<longleftrightarrow>
     get_or (target_column ps) ''isFraud'' \<notin> set (names df)
     \<and> e = KeyError (get_or (target_column ps) ''isFraud'')"
proof -
  have "drop df (filter (\<lambda>c. c \<in> set (names df)) (get_or (drop_columns ps) []))
          = Inr (df\<lparr>cols := filter (\<lambda>c. fst c \<notin> set (filter (\<lambda>c. c \<in> set (names df))
                    (get_or (drop_columns ps) []))) (cols df)\<rparr>)"
    by (rule drop_present) auto
  then show ?thesis
    by (simp add: split_features_target_def Let_def and_then_eq_Inl get_col_eq_Inl del: set_filter)
qed

text \<open>
  C7 as stated fails: the Splitter's is not the only failure of the pipeline. On a table that
  has the target column, \<^verbatim>\<open>engineer_features\<close> raises a KeyError for the missing
  \<^verbatim>\<open>TransactionDT\<close> column.
\<close>

theorem engineer_features_fails_too:
  "get_or (target_column night_params) ''isFraud'' \<in> set (names fraud_table)
   \<and> engineer_features plain_fmt fraud_table night_params = Inl (KeyError ''TransactionDT'')"
  by (simp add: engineer_features_eq pre_aggregate_eq night_params_def no_params_def require_def
      fraud_table_def names_def num_col_def get_col_def get_or_def)

section \<open>Claims about the Merger and the row count\<close>

text \<open>
  C4 (as amended). Each of the four stages, when it returns, keeps the row count of the table
  it consumes, and every column of its output has that many cells: the Merger when the
  identity table has no two rows with the same \<^verbatim>\<open>TransactionID\<close>, the FeatureEngineer on a
  well-formed table, the MissingValueHandler and the CategoricalEncoder on a table whose
  columns have one cell per row.
\<close>

theorem row_count_preserved:
  "(wf transactions \<and> get_col identity ''TransactionID'' = Inr ids \<and> distinct (cells ids)
      \<and> merge_datasets transactions identity = Inr merged
      \<longrightarrow> nrows merged = nrows transactions \<and> rectangular merged)
   \<and> (wf df1 \<and> engineer_features fmt df1 ps = Inr featured
      \<longrightarrow> nrows featured = nrows df1 \<and> rectangular featured)
   \<and> (rectangular df2 \<and> handle_missing_values df2 ps = Inr clean
      \<longrightarrow> nrows clean = nrows df2 \<and> rectangular clean)
   \<and> (rectangular df3 \<and> encode_categorical_variables tie df3 ps = Inr encoded
      \<longrightarrow> nrows encoded = nrows df3 \<and> rectangular encoded)"
  using merge_left_rows [of transactions identity "''TransactionID''" merged ids]
    engineer_features_rows [of df1 fmt ps featured]
    handle_missing_values_rows [of df2 ps clean]
    encode_categorical_variables_rows [of tie df3 ps encoded]
  unfolding merge_datasets_def by blast

theorem row_count_preserved_witness:
  "(\<exists>merged. merge_datasets txn_table id_table = Inr merged \<and> nrows merged = 2 \<and> rectangular merged)
   \<and> nrows featured_table = 3 \<and> rectangular featured_table
   \<and> (\<exists>clean. handle_missing_values featured_table night_params = Inr clean
         \<and> nrows clean = 3 \<and> rectangular clean)
   \<and> (\<exists>encoded. encode_categorical_variables by_first_row featured_table night_params = Inr encoded
         \<and> nrows encoded = 3 \<and> rectangular encoded)"
proof -
  have w: "wf txn_table"
    by (simp add: wf_def txn_table_def names_def)
  have k: "get_col id_table ''TransactionID'' = Inr (NumCol [Some 2])"
    "distinct (cells (NumCol [Some 2]))"
    by (simp_all add: id_table_def get_col_def)
  have r: "rectangular featured_table"
    using row_count_preserved [of merged_table merged_table _ _ merged_table plain_fmt
        night_params featured_table] wf_merged_table engineer_features_merged_table
    by blast
  obtain clean where c: "handle_missing_values featured_table night_params = Inr clean"
    using handle_missing_values_returns by blast
  have ne: "cols featured_table \<noteq> []"
    by (simp add: featured_table_def)
  then obtain encoded where e: "encode_categorical_variables by_first_row featured_table night_params = Inr encoded"
    by (simp add: encode_categorical_variables_eq)
  have n: "nrows txn_table = 2" "nrows featured_table = 3"
    by (simp_all add: txn_table_def featured_table_def)
  show ?thesis
    using row_count_preserved [where transactions = txn_table and identity = id_table
        and ids = "NumCol [Some 2]" and ?df1.0 = merged_table and fmt = plain_fmt
        and ps = night_params and featured = featured_table and ?df2.0 = featured_table
        and clean = clean and tie = by_first_row and ?df3.0 = featured_table
        and encoded = encoded]
      w k merge_txn_id wf_merged_table engineer_features_merged_table r c e n
    by auto
qed

text \<open>
  C4 as stated fails: the left join yields one row for each matching identity row, so two
  identity rows with the same \<^verbatim>\<open>TransactionID\<close> turn two transactions into three merged rows.
\<close>

theorem duplicate_identity_rows:
  "merge_datasets txn_table dup_id_table = Inr \<lparr>nrows = 3, cols =
     [(''TransactionID'', NumCol [Some 1, Some 2, Some 2]),
      (''isFraud'', NumCol [Some 0, Some 1, Some 1]),
      (''DeviceType'', ObjectCol [None, Some ''mobile'', Some ''desktop''])]\<rparr>
   \<and> nrows txn_table = 2"
  by (simp add: merge_datasets_def merge_left_def txn_table_def dup_id_table_def get_col_def
      names_def joined_def suffixed_def left_join_indexer_def matches_def upt_rec
      cong: and_then_weak_cong)

section \<open>Claims about the FeatureEngineer\<close>

text \<open>
  C2. The claim is that \<^verbatim>\<open>card_amt_mean\<close> and \<^verbatim>\<open>card_amt_std\<close> are the mean and the standard
  deviation of the transaction amount in each card group. The code aggregates
  \<^verbatim>\<open>TransactionID\<close> instead: on the sample table, the two rows of card \<open>1\<close> have the
  amounts \<open>10\<close> and \<open>20\<close>, and their \<^verbatim>\<open>card_amt_mean\<close> is \<open>3/2\<close>, the mean of their
  transaction identifiers \<open>1\<close> and \<open>2\<close>.
\<close>

theorem card_amt_mean_of_transaction_id:
  "column_of (engineer_features plain_fmt merged_table night_params) ''card_amt_mean''
     = Inr (NumCol [Some (3 / 2), Some (3 / 2), Some 3])
   \<and> get_col merged_table ''card1'' = Inr (NumCol [Some 1, Some 1, Some 2])
   \<and> get_col merged_table ''TransactionID'' = Inr (NumCol [Some 1, Some 2, Some 3])
   \<and> get_col merged_table ''TransactionAmt'' = Inr (NumCol [Some 10, Some 20, Some (61 / 2)])"
proof (intro conjI)
  show "column_of (engineer_features plain_fmt merged_table night_params) ''card_amt_mean''
     = Inr (NumCol [Some (3 / 2), Some (3 / 2), Some 3])"
    by (simp add: engineer_features_merged_table column_of_def featured_table_def get_col_def)
qed (simp_all add: merged_table_def get_col_def)

text \<open>
  C3 (as amended). Whenever \<^verbatim>\<open>engineer_features\<close> returns on a well-formed table, for every
  row the \<^verbatim>\<open>email_match\<close> cell is \<open>1\<close> if the purchaser and the recipient email domain are
  both present and identical, and \<open>0\<close> otherwise; in particular it is \<open>0\<close> when both are
  missing.
\<close>

theorem email_match_spec:
  assumes "wf df" and "engineer_features fmt df ps = Inr out"
  shows "\<exists>p r m.
      get_col df ''P_emaildomain'' = Inr p \<and> get_col df ''R_emaildomain'' = Inr r
    \<and> get_col out ''email_match'' = Inr (NumCol m) \<and> length m = nrows df
    \<and> (\<forall>i < nrows df. m ! i =
          Some (if cells p ! i \<noteq> None \<and> cells p ! i = cells r ! i then 1 else 0))"
proof -
  from assms obtain p r where
    p: "get_col df ''P_emaildomain'' = Inr p" "col_len p = nrows df"
    and r: "get_col df ''R_emaildomain'' = Inr r" "col_len r = nrows df"
    and email: "get_col out ''email_match'' = Inr (astype_int (series_eq p r))"
    by (rule engineer_features_facts)
  let ?m = "map (\<lambda>b. Some (if b then 1 else 0 :: real)) (series_eq p r)"
  have "?m ! i = Some (if cells p ! i \<noteq> None \<and> cells p ! i = cells r ! i then 1 else 0)"
    if "i < nrows df" for i
    using that p(2) r(2) by (simp add: series_eq_def)
  then show ?thesis
    using p r email
    by (intro exI [of _ p] exI [of _ r] exI [of _ ?m]) (simp add: astype_int_def)
qed

theorem email_match_spec_witness:
  "\<exists>p r m.
      get_col merged_table ''P_emaildomain'' = Inr p \<and> get_col merged_table ''R_emaildomain'' = Inr r
    \<and> get_col featured_table ''email_match'' = Inr (NumCol m) \<and> length m = nrows merged_table
    \<and> (\<forall>i < nrows merged_table. m ! i =
          Some (if cells p ! i \<noteq> None \<and> cells p ! i = cells r ! i then 1 else 0))"
  using wf_merged_table engineer_features_merged_table by (rule email_match_spec)

text \<open>
  C3 as stated fails: in the second row of the sample table both email domains are missing
  and \<^verbatim>\<open>email_match\<close> is \<open>0\<close>, since the comparison of two missing cells is false.
\<close>

theorem email_match_both_missing:
  "column_of (engineer_features plain_fmt merged_table night_params) ''email_match''
     = Inr (NumCol [Some 1, Some 0, Some 0])
   \<and> get_col merged_table ''P_emaildomain'' = Inr (ObjectCol [Some ''a.com'', None, Some ''a.com''])
   \<and> get_col merged_table ''R_emaildomain'' = Inr (ObjectCol [Some ''a.com'', None, Some ''b.com''])"
proof (intro conjI)
  show "column_of (engineer_features plain_fmt merged_table night_params) ''email_match''
     = Inr (NumCol [Some 1, Some 0, Some 0])"
    by (simp add: engineer_features_merged_table column_of_def featured_table_def get_col_def)
qed (simp_all add: merged_table_def get_col_def)

text \<open>
  C8. Whenever \<^verbatim>\<open>engineer_features\<close> returns on a well-formed table, the output's \<^verbatim>\<open>hour\<close>
  column is \<open>(TransactionDT // 3600) % 24\<close> row by row, and for every row the \<^verbatim>\<open>is_night\<close>
  cell is \<open>1\<close> if the hour is at least \<^verbatim>\<open>night_hours_start\<close> or below \<^verbatim>\<open>night_hours_end\<close>,
  and \<open>0\<close> otherwise; so an hour equal to \<^verbatim>\<open>night_hours_start\<close> is night and an hour equal
  to \<^verbatim>\<open>night_hours_end\<close> is not, unless it is at least \<^verbatim>\<open>night_hours_start\<close>. A row without
  an hour (missing \<^verbatim>\<open>TransactionDT\<close>) satisfies neither comparison and gets \<open>0\<close>.
\<close>

theorem is_night_spec:
  assumes "wf df" and "engineer_features fmt df ps = Inr out"
  shows "\<exists>ns ne dt hs nights.
      night_hours_start ps = Some ns \<and> night_hours_end ps = Some ne
    \<and> get_col df ''TransactionDT'' = Inr (NumCol dt)
    \<and> hs = map (map_option (\<lambda>t. pymod (floordiv t 3600) 24)) dt
    \<and> get_col out ''hour'' = Inr (NumCol hs)
    \<and> get_col out ''is_night'' = Inr (NumCol nights)
    \<and> length hs = nrows df \<and> length nights = nrows df
    \<and> (\<forall>i < nrows df. nights ! i =
          Some (if \<exists>h. hs ! i = Some h \<and> (of_int ns \<le> h \<or> h < of_int ne) then 1 else 0))"
proof -
  from assms obtain ns ne dt where
    ps: "night_hours_start ps = Some ns" "night_hours_end ps = Some ne"
    and dt: "get_col df ''TransactionDT'' = Inr (NumCol dt)" "length dt = nrows df"
    and hour: "get_col out ''hour'' = Inr (NumCol (hours dt))"
    and night: "get_col out ''is_night'' = Inr (astype_int (or_series
          (ge_scalar (hours dt) (of_int ns)) (lt_scalar (hours dt) (of_int ne))))"
    by (rule engineer_features_facts)
  let ?nights = "map (\<lambda>b. Some (if b then 1 else 0 :: real))
      (or_series (ge_scalar (hours dt) (of_int ns)) (lt_scalar (hours dt) (of_int ne)))"
  have cell: "?nights ! i =
      Some (if \<exists>h. hours dt ! i = Some h \<and> (of_int ns \<le> h \<or> h < of_int ne) then 1 else 0)"
    if "i < nrows df" for i
  proof -
    from that dt(2) have i: "i < length (hours dt)"
      by (simp add: hours_def)
    then have "?nights ! i = Some (if (case hours dt ! i of None \<Rightarrow> False | Some v \<Rightarrow> of_int ns \<le> v)
          \<or> (case hours dt ! i of None \<Rightarrow> False | Some v \<Rightarrow> v < of_int ne) then 1 else 0)"
      by (simp add: or_series_def ge_scalar_def lt_scalar_def)
    then show ?thesis
      by (cases "hours dt ! i") simp_all
  qed
  show ?thesis
    apply (rule exI [of _ ns], rule exI [of _ ne], rule exI [of _ dt],
        rule exI [of _ "hours dt"], rule exI [of _ ?nights])
    using ps dt hour night cell
    by (simp add: hours_def astype_int_def or_series_def ge_scalar_def lt_scalar_def)
qed

text \<open>
  On the sample table, with night from 22 to 6: the row of hour 22 is night, the row of hour
  6 is not.
\<close>

theorem is_night_spec_witness:
  "\<exists>ns ne dt hs nights.
      night_hours_start night_params = Some ns \<and> night_hours_end night_params = Some ne
    \<and> get_col merged_table ''TransactionDT'' = Inr (NumCol dt)
    \<and> hs = map (map_option (\<lambda>t. pymod (floordiv t 3600) 24)) dt
    \<and> get_col featured_table ''hour'' = Inr (NumCol hs)
    \<and> get_col featured_table ''is_night'' = Inr (NumCol nights)
    \<and> length hs = nrows merged_table \<and> length nights = nrows merged_table
    \<and> (\<forall>i < nrows merged_table. nights ! i =
          Some (if \<exists>h. hs ! i = Some h \<and> (of_int ns \<le> h \<or> h < of_int ne) then 1 else 0))"
  using wf_merged_table engineer_features_merged_table by (rule is_night_spec)

text \<open>
  C9. Whenever \<^verbatim>\<open>engineer_features\<close> returns on a well-formed table that has no column
  \<^verbatim>\<open>card_amt_std\<close> of its own, the output has the card-group column and a \<^verbatim>\<open>card_amt_std\<close>
  column, and every row whose card-group key occurs in no other row has a missing (NaN)
  \<^verbatim>\<open>card_amt_std\<close>: the value is neither zero nor an error.
\<close>

theorem single_row_group_std:
  assumes "wf df" and "engineer_features fmt df ps = Inr out"
    and "''card_amt_std'' \<notin> set (names df)"
  shows "\<exists>cc keys stds.
      card_group_column ps = Some cc \<and> get_col out cc = Inr keys
    \<and> get_col out ''card_amt_std'' = Inr (NumCol stds)
    \<and> length (cells keys) = nrows df \<and> length stds = nrows df
    \<and> (\<forall>i < nrows df. count_list (cells keys) (cells keys ! i) = 1 \<longrightarrow> stds ! i = None)"
proof (rule engineer_features_facts [OF assms(1,2)])
  fix cc keys stds
  assume "card_group_column ps = Some cc" "get_col out cc = Inr keys" "col_len keys = nrows df"
    "''card_amt_std'' \<notin> set (names df) \<Longrightarrow> get_col out ''card_amt_std'' = Inr (NumCol stds)"
    "length stds = nrows df"
    "\<And>i. i < nrows df \<Longrightarrow> count_list (cells keys) (cells keys ! i) = 1 \<Longrightarrow> stds ! i = None"
  with assms(3) show ?thesis
    by (intro exI [of _ cc] exI [of _ keys] exI [of _ stds]) simp
qed

text \<open>
  On the sample table, grouped by \<^verbatim>\<open>card1\<close>, the function returns; the third row is alone in
  its group and has no \<^verbatim>\<open>card_amt_std\<close>.
\<close>

theorem single_row_group_std_witness:
  "column_of (engineer_features plain_fmt merged_table night_params) ''card_amt_std''
     = Inr (NumCol [Some (sqrt (1 / 2)), Some (sqrt (1 / 2)), None])
   \<and> (\<exists>cc keys stds.
      card_group_column night_params = Some cc \<and> get_col featured_table cc = Inr keys
    \<and> get_col featured_table ''card_amt_std'' = Inr (NumCol stds)
    \<and> length (cells keys) = nrows merged_table \<and> length stds = nrows merged_table
    \<and> (\<forall>i < nrows merged_table. count_list (cells keys) (cells keys ! i) = 1 \<longrightarrow> stds ! i = None))"
proof -
  have "''card_amt_std'' \<notin> set (names merged_table)"
    by (simp add: merged_table_def names_def)
  with wf_merged_table engineer_features_merged_table
  have "\<exists>cc keys stds.
      card_group_column night_params = Some cc \<and> get_col featured_table cc = Inr keys
    \<and> get_col featured_table ''card_amt_std'' = Inr (NumCol stds)
    \<and> length (cells keys) = nrows merged_table \<and> length stds = nrows merged_table
    \<and> (\<forall>i < nrows merged_table. count_list (cells keys) (cells keys ! i) = 1 \<longrightarrow> stds ! i = None)"
    by (rule single_row_group_std)
  moreover have "column_of (engineer_features plain_fmt merged_table night_params) ''card_amt_std''
     = Inr (NumCol [Some (sqrt (1 / 2)), Some (sqrt (1 / 2)), None])"
    by (simp add: engineer_features_merged_table column_of_def featured_table_def get_col_def)
  ultimately show ?thesis by blast
qed

text \<open>
  C10 (as amended). The join key and the feature source columns are hard-coded.
  \<^verbatim>\<open>merge_datasets\<close> joins on \<^verbatim>\<open>TransactionID\<close>: when either table lacks that column it raises
  a KeyError. \<^verbatim>\<open>engineer_features\<close> reads the configuration keys \<^verbatim>\<open>night_hours_start\<close>,
  \<^verbatim>\<open>night_hours_end\<close> and \<^verbatim>\<open>card_group_column\<close> without defaults: a configuration lacking
  one of them raises a KeyError. It reads the ten columns of \<open>required_columns\<close>: a table
  lacking one of them raises an error, and that error is a KeyError whenever the columns
  \<^verbatim>\<open>TransactionDT\<close> and \<^verbatim>\<open>TransactionAmt\<close>, where present, are not \<^verbatim>\<open>object\<close> columns.
\<close>

theorem hard_coded_columns:
  "(''TransactionID'' \<notin> set (names transactions) \<or> ''TransactionID'' \<notin> set (names identity)
      \<longrightarrow> merge_datasets transactions identity = Inl (KeyError ''TransactionID''))
   \<and> (night_hours_start ps = None \<or> night_hours_end ps = None \<or> card_group_column ps = None
      \<longrightarrow> (\<exists>k \<in> {''night_hours_start'', ''night_hours_end'', ''card_group_column''}.
             engineer_features fmt df ps = Inl (KeyError k)))
   \<and> (\<not> set required_columns \<subseteq> set (names df)
      \<longrightarrow> (\<exists>e. engineer_features fmt df ps = Inl e))
   \<and> (\<not> set required_columns \<subseteq> set (names df)
        \<and> not_object df ''TransactionDT'' \<and> not_object df ''TransactionAmt''
      \<longrightarrow> (\<exists>k. engineer_features fmt df ps = Inl (KeyError k)))"
  using merge_datasets_missing_key engineer_features_missing_key engineer_features_required
    engineer_features_required_KeyError
  by blast

theorem hard_coded_columns_witness:
  "merge_datasets fraud_table fraud_table = Inl (KeyError ''TransactionID'')
   \<and> (\<exists>k \<in> {''night_hours_start'', ''night_hours_end'', ''card_group_column''}.
         engineer_features plain_fmt fraud_table no_params = Inl (KeyError k))
   \<and> (\<exists>e. engineer_features plain_fmt fraud_table no_params = Inl e)
   \<and> (\<exists>k. engineer_features plain_fmt fraud_table no_params = Inl (KeyError k))"
proof -
  have 1: "''TransactionID'' \<notin> set (names fraud_table)"
    by (simp add: fraud_table_def names_def)
  have 2: "night_hours_start no_params = None"
    by (simp add: no_params_def)
  have 3: "\<not> set required_columns \<subseteq> set (names fraud_table)"
    by (simp add: fraud_table_def names_def required_columns_def)
  have 4: "not_object fraud_table ''TransactionDT''" "not_object fraud_table ''TransactionAmt''"
    by (simp_all add: not_object_def fraud_table_def get_col_def)
  show ?thesis
    using hard_coded_columns [of fraud_table fraud_table no_params plain_fmt fraud_table] 1 2 3 4
    by blast
qed

text \<open>
  C10 as stated fails: on a table that lacks \<^verbatim>\<open>card1\<close> (and more) and whose
  \<^verbatim>\<open>TransactionDT\<close> column holds text, the floor division of line 32 raises a TypeError
  before any missing column is looked up.
\<close>

theorem type_error_before_lookup:
  "''card1'' \<notin> set (names text_dt_table)
   \<and> engineer_features plain_fmt text_dt_table night_params = Inl TypeError"
  by (simp add: engineer_features_eq pre_aggregate_eq night_params_def no_params_def require_def
      text_dt_table_def names_def num_col_def get_col_def as_numeric_def)

section \<open>Claims about the MissingValueHandler\<close>

text \<open>
  C5 (as amended). On a well-formed table of binary64 numbers, \<^verbatim>\<open>handle_missing_values\<close>
  returns a table with the same row count. It keeps, in order, exactly the columns whose
  missing fraction does not strictly exceed the threshold (default \<^verbatim>\<open>0.9\<close>), where the
  fraction is the binary64 quotient of the number of missing cells by the row count and the
  threshold is a binary64 number; on a table without rows it keeps every column. In a kept
  \<^verbatim>\<open>object\<close> column a missing cell becomes \<^verbatim>\<open>"unknown"\<close>. In a kept numeric column a missing
  cell becomes the median of the column's non-missing cells: the middle one of them in
  sorted order when their number is odd, the binary64 mean of the two middle ones when it
  is even, and it stays missing when there is none. When the threshold is below \<open>1\<close>, no
  cell of the output is missing.
\<close>

theorem handle_missing_values_spec:
  assumes "wf df" and "binary64_frame df"
  shows "\<exists>out. handle_missing_values df ps = Inr out
     \<and> nrows out = nrows df
     \<and> names out = map fst (filter (\<lambda>(n, d). nrows df = 0
           \<or> binary64 (binary64 (real (count_list (cells d) None)) / binary64 (real (nrows df)))
               \<le> binary64 (get_or (missing_threshold ps) (9 / 10))) (cols df))
     \<and> (\<forall>(n, d) \<in> set (cols df). n \<in> set (names out) \<longrightarrow>
           get_col out n = Inr (case d of
               ObjectCol xs \<Rightarrow>
                 ObjectCol (map (\<lambda>x. case x of None \<Rightarrow> Some ''unknown'' | Some v \<Rightarrow> Some v) xs)
             | NumCol xs \<Rightarrow>
                 NumCol (map (\<lambda>x. case x of
                     None \<Rightarrow>
                       (let s = sort (somes xs); k = length s
                        in if k = 0 then None
                           else if odd k then Some (s ! (k div 2))
                           else Some (binary64 (binary64 (s ! (k div 2 - 1) + s ! (k div 2)) / 2)))
                   | Some v \<Rightarrow> Some v) xs)))
     \<and> (binary64 (get_or (missing_threshold ps) (9 / 10)) < 1 \<longrightarrow>
           (\<forall>(n, d) \<in> set (cols out). None \<notin> set (cells d)))"
proof -
  let ?t = "binary64 (get_or (missing_threshold ps) (9 / 10))"
  let ?keep = "\<lambda>c. \<not> exceeds (missing_pct (nrows df) (snd c)) ?t"
  let ?out = "df\<lparr>cols := map (\<lambda>(n, d). (n, fill_missing d)) (filter ?keep (cols df))\<rparr>"
  from assms(1) have dist: "distinct (map fst (cols df))"
    and len: "\<And>c. c \<in> set (cols df) \<Longrightarrow> col_len (snd c) = nrows df"
    by (auto simp: wf_def names_def list_all_iff)
  have out: "handle_missing_values df ps = Inr ?out"
    using dist by (simp add: handle_missing_values_eq names_def)
  have keep: "?keep = (\<lambda>(n, d). nrows df = 0
           \<or> binary64 (binary64 (real (count_list (cells d) None)) / binary64 (real (nrows df))) \<le> ?t)"
    by (simp add: fun_eq_iff not_exceeds_iff null_count_cells)
  have names_out: "names ?out = map fst (filter ?keep (cols df))"
    by (simp add: names_def comp_def case_prod_unfold)
  have col: "get_col ?out n = Inr (fill_missing d)"
    if "(n, d) \<in> set (cols df)" "n \<in> set (names ?out)" for n d
  proof -
    from that(2) obtain x where x: "x \<in> set (cols df)" "?keep x" "fst x = n"
      unfolding names_out by auto
    with dist that(1) have "x = (n, d)"
      by (cases x) (auto dest: eq_key_imp_eq_value)
    with x have "?keep (n, d)" by simp
    from map_of_filled [of "cols df" n d ?keep fill_missing, OF dist that(1) this]
    show ?thesis by (simp add: get_col_eq_Inr)
  qed
  have filled: "None \<notin> set (cells (snd c))" if "?t < 1" "c \<in> set (cols ?out)" for c
  proof -
    from that(2) obtain n d where d: "(n, d) \<in> set (cols df)" "?keep (n, d)"
      "c = (n, fill_missing d)"
      by auto
    have l: "col_len d = nrows df" using len [OF d(1)] by simp
    have "null_count d < col_len d \<or> col_len d = 0"
    proof (cases "nrows df = 0")
      case True
      with l show ?thesis by simp
    next
      case False
      have "null_count d \<noteq> nrows df"
      proof
        assume "null_count d = nrows df"
        with False have "missing_pct (nrows df) d = Some 1"
          by (simp add: missing_pct_full)
        with d(2) that(1) show False by (simp add: exceeds_def)
      qed
      with null_count_le [of d] l show ?thesis by simp
    qed
    then have "null_count (fill_missing d) = 0"
      by (rule null_count_fill)
    then show ?thesis
      unfolding d(3) by (simp add: null_count_eq_0)
  qed
  show ?thesis
  proof (intro exI [of _ ?out] conjI)
    show "handle_missing_values df ps = Inr ?out" by (rule out)
    show "nrows ?out = nrows df" by simp
    show "names ?out = map fst (filter (\<lambda>(n, d). nrows df = 0
           \<or> binary64 (binary64 (real (count_list (cells d) None)) / binary64 (real (nrows df)))
               \<le> ?t) (cols df))"
      using names_out unfolding keep .
    show "\<forall>(n, d) \<in> set (cols df). n \<in> set (names ?out) \<longrightarrow>
           get_col ?out n = Inr (case d of
               ObjectCol xs \<Rightarrow>
                 ObjectCol (map (\<lambda>x. case x of None \<Rightarrow> Some ''unknown'' | Some v \<Rightarrow> Some v) xs)
             | NumCol xs \<Rightarrow>
                 NumCol (map (\<lambda>x. case x of
                     None \<Rightarrow>
                       (let s = sort (somes xs); k = length s
                        in if k = 0 then None
                           else if odd k then Some (s ! (k div 2))
                           else Some (binary64 (binary64 (s ! (k div 2 - 1) + s ! (k div 2)) / 2)))
                   | Some v \<Rightarrow> Some v) xs))"
      using col unfolding fill_missing_eq [symmetric] by blast
    show "?t < 1 \<longrightarrow> (\<forall>(n, d) \<in> set (cols ?out). None \<notin> set (cells d))"
      using filled by fastforce
  qed
qed

theorem handle_missing_values_spec_witness:
  "\<exists>out. handle_missing_values gaps_table
            (no_params\<lparr>missing_threshold := Some (3333333333333333 / 10000000000000000)\<rparr>) = Inr out
     \<and> nrows out = 6
     \<and> names out = [''A'', ''C'', ''D'', ''E'']
     \<and> get_col out ''A'' = Inr (NumCol [Some 1, Some 2, Some (5 / 2), Some 4, Some (5 / 2), Some 3])
     \<and> get_col out ''C'' = Inr (ObjectCol [Some ''x'', Some ''unknown'', Some ''y'', Some ''unknown'',
                                              Some ''x'', Some ''x''])
     \<and> get_col out ''D'' = Inr (NumCol [Some (3602879701896397 / 36028797018963968),
                                           Some (1351079888211149 / 9007199254740992),
                                           Some (3602879701896397 / 18014398509481984),
                                           Some (3602879701896397 / 36028797018963968),
                                           Some (3602879701896397 / 18014398509481984),
                                           Some (1351079888211149 / 9007199254740992)])
     \<and> get_col out ''E'' = Inr (NumCol [Some 9, Some 3, Some 5, Some 5, Some 1, Some 7])
     \<and> (\<forall>(n, d) \<in> set (cols out). None \<notin> set (cells d))"
proof -
  let ?ps = "no_params\<lparr>missing_threshold := Some (3333333333333333 / 10000000000000000)\<rparr>"
  have w: "wf gaps_table"
    by (simp add: wf_def gaps_table_def names_def)
  have b: "binary64_frame gaps_table"
    by (simp add: binary64_frame_def gaps_table_def somes_def binary64_cell_def binary64_eval)
  have t: "binary64 (get_or (missing_threshold ?ps) (9 / 10)) = 6004799503160661 / 18014398509481984"
    by (simp add: no_params_def get_or_def binary64_eval)
  from handle_missing_values_spec [OF w b, of ?ps] show ?thesis
    unfolding t
    apply (simp add: gaps_table_def somes_def binary64_eval)
    apply (elim exE conjE)
    subgoal for out by (intro exI [of _ out]) simp
    done
qed

text \<open>
  C5 as stated fails in two ways. With the threshold \<open>1\<close> a numeric column without any value
  is kept (its missing fraction \<open>1\<close> does not exceed the threshold), its median is NaN, and
  the output still has every cell of that column missing. And a column with one cell of three
  missing is kept under the threshold \<^verbatim>\<open>0.3333333333333333\<close>, which is smaller than a third:
  the quotient of \<open>1\<close> by \<open>3\<close> is rounded to that very number, which it does not exceed.
\<close>

theorem handle_missing_values_keeps_missing:
  "handle_missing_values all_missing_table (no_params\<lparr>missing_threshold := Some 1\<rparr>)
     = Inr \<lparr>nrows = 2, cols = [(''V1'', NumCol [None, None])]\<rparr>
   \<and> handle_missing_values third_table
       (no_params\<lparr>missing_threshold := Some (6004799503160661 / 18014398509481984)\<rparr>)
     = Inr \<lparr>nrows = 3, cols = [(''A'', NumCol [Some 1, Some 2, Some (3 / 2)])]\<rparr>
   \<and> (6004799503160661 / 18014398509481984 :: real) < 1 / 3"
  by (simp add: handle_missing_values_def all_missing_table_def third_table_def no_params_def
      get_or_def exceeds_def missing_pct_def drop_def names_def median_def somes_def binary64_eval)

section \<open>Claims about the CategoricalEncoder\<close>

text \<open>
  C6. On a well-formed table with at least one column \<^verbatim>\<open>encode_categorical_variables\<close>
  returns a table with the same row count, whatever the order \<open>tie\<close> that pandas gives to
  values of equal count. (On a table without any column \<^verbatim>\<open>pd.get_dummies\<close> has nothing to
  concatenate and raises ValueError.) The columns of the output are, in order, the columns
  that are numeric or listed in \<^verbatim>\<open>encoding_exclude\<close>, unchanged, followed by the indicator
  columns of each other \<^verbatim>\<open>object\<close> column. Such a column with at most 10 distinct values is
  encoded as it is. In one with more, ten distinct values are kept, each at least as frequent
  as every value that is not kept, and every other cell, a missing one too, becomes
  \<^verbatim>\<open>"other"\<close>. The indicator columns of a column are those of the distinct values it then
  has, in sorted order and without the first: the one of a value is labelled with the column
  label, \<^verbatim>\<open>_\<close> and the value, and holds \<open>1\<close> in the rows of that value and \<open>0\<close> in the others.
  So a column that then has \<open>k > 0\<close> distinct values yields exactly \<open>k - 1\<close> indicator columns.
\<close>

theorem encode_categorical_variables_spec:
  assumes "wf df"
  shows "if cols df = [] then encode_categorical_variables tie df ps = Inl ValueError
    else \<exists>out. encode_categorical_variables tie df ps = Inr out
    \<and> nrows out = nrows df
    \<and> cols out =
        filter (\<lambda>(n, d). n \<in> set (get_or (encoding_exclude ps) [])
                  \<or> (case d of NumCol xs \<Rightarrow> True | ObjectCol xs \<Rightarrow> False)) (cols df)
        @ concat (map (\<lambda>(n, d). case d of
              ObjectCol xs \<Rightarrow> if n \<in> set (get_or (encoding_exclude ps) []) then []
                             else dummies n (cap_categories tie xs)
            | NumCol xs \<Rightarrow> []) (cols df))
    \<and> (\<forall>(n, d) \<in> set (cols df).
          n \<in> set (get_or (encoding_exclude ps) []) \<or> (\<exists>xs. d = NumCol xs)
          \<longrightarrow> get_col out n = Inr d)
    \<and> (\<forall>(n, d) \<in> set (cols df). \<forall>xs.
          d = ObjectCol xs \<and> n \<notin> set (get_or (encoding_exclude ps) []) \<longrightarrow>
          (card (set (somes xs)) \<le> 10 \<longrightarrow> cap_categories tie xs = xs)
        \<and> (10 < card (set (somes xs)) \<longrightarrow>
             (\<exists>tops. length tops = 10 \<and> distinct tops \<and> set tops \<subseteq> set (somes xs)
                \<and> (\<forall>v \<in> set (somes xs) - set tops. \<forall>t \<in> set tops.
                      count_list (somes xs) v \<le> count_list (somes xs) t)
                \<and> cap_categories tie xs =
                    map (\<lambda>x. case x of None \<Rightarrow> Some ''other''
                              | Some v \<Rightarrow> if v \<in> set tops then Some v else Some ''other'') xs))
        \<and> dummies n (cap_categories tie xs) =
            map (\<lambda>level. (n @ ''_'' @ level,
                   NumCol (map (\<lambda>x. Some (if x = Some level then 1 else 0)) (cap_categories tie xs))))
              (tl (sort (remdups (somes (cap_categories tie xs)))))
        \<and> (0 < card (set (somes (cap_categories tie xs))) \<longrightarrow>
              Suc (length (dummies n (cap_categories tie xs)))
                = card (set (somes (cap_categories tie xs)))))"
proof (cases "cols df = []")
  case True
  then show ?thesis by (simp add: encode_categorical_variables_eq)
next
  case False
  let ?ex = "set (get_or (encoding_exclude ps) [])"
  let ?cols = "filter (\<lambda>(n, d). n \<in> ?ex
                  \<or> (case d of NumCol xs \<Rightarrow> True | ObjectCol xs \<Rightarrow> False)) (cols df)
        @ concat (map (\<lambda>(n, d). case d of
              ObjectCol xs \<Rightarrow> if n \<in> ?ex then [] else dummies n (cap_categories tie xs)
            | NumCol xs \<Rightarrow> []) (cols df))"
  let ?out = "df\<lparr>cols := ?cols\<rparr>"
  have out: "encode_categorical_variables tie df ps = Inr ?out"
    using False
    by (simp add: encode_categorical_variables_eq not_encoded_eq [OF assms(1)]
        encoded_eq [of "\<lambda>n xs. dummies n (cap_categories tie xs)"])
  have pass: "get_col ?out n = Inr d"
    if "(n, d) \<in> set (cols df)" "n \<in> ?ex \<or> (\<exists>xs. d = NumCol xs)" for n d
    using passes_through [OF assms(1) that, of "concat (map (\<lambda>(n, d). case d of
              ObjectCol xs \<Rightarrow> if n \<in> ?ex then [] else dummies n (cap_categories tie xs)
            | NumCol xs \<Rightarrow> []) (cols df))"]
    by (simp add: get_col_eq_Inr not_encoded_eq [OF assms(1)])
  have small: "cap_categories tie xs = xs" if "card (set (somes xs)) \<le> 10" for xs
    using that by (simp add: cap_categories_def nunique_card)
  have big: "\<exists>tops. length tops = 10 \<and> distinct tops \<and> set tops \<subseteq> set (somes xs)
                \<and> (\<forall>v \<in> set (somes xs) - set tops. \<forall>t \<in> set tops.
                      count_list (somes xs) v \<le> count_list (somes xs) t)
                \<and> cap_categories tie xs =
                    map (\<lambda>x. case x of None \<Rightarrow> Some ''other''
                              | Some v \<Rightarrow> if v \<in> set tops then Some v else Some ''other'') xs"
    if "10 < card (set (somes xs))" for xs
  proof -
    from that have n: "10 < nunique xs" by (simp add: nunique_card)
    show ?thesis
    proof (intro exI [of _ "map fst (take 10 (value_counts tie xs))"] conjI ballI)
      show "cap_categories tie xs =
          map (\<lambda>x. case x of None \<Rightarrow> Some ''other''
                    | Some v \<Rightarrow> if v \<in> set (map fst (take 10 (value_counts tie xs))) then Some v
                               else Some ''other'') xs"
        using n unfolding cap_categories_def Let_def by (simp only: if_True)
    qed (use top_categories [where tie = tie, OF n] in blast)+
  qed
  have count: "Suc (length (dummies n ys)) = card (set (somes ys))"
    if "0 < card (set (somes ys))" for n ys
    using that by (simp add: dummies_length nunique_card)
  have each: "(card (set (somes xs)) \<le> 10 \<longrightarrow> cap_categories tie xs = xs)
        \<and> (10 < card (set (somes xs)) \<longrightarrow>
             (\<exists>tops. length tops = 10 \<and> distinct tops \<and> set tops \<subseteq> set (somes xs)
                \<and> (\<forall>v \<in> set (somes xs) - set tops. \<forall>t \<in> set tops.
                      count_list (somes xs) v \<le> count_list (somes xs) t)
                \<and> cap_categories tie xs =
                    map (\<lambda>x. case x of None \<Rightarrow> Some ''other''
                              | Some v \<Rightarrow> if v \<in> set tops then Some v else Some ''other'') xs))
        \<and> dummies n (cap_categories tie xs) =
            map (\<lambda>level. (n @ ''_'' @ level,
                   NumCol (map (\<lambda>x. Some (if x = Some level then 1 else 0)) (cap_categories tie xs))))
              (tl (sort (remdups (somes (cap_categories tie xs)))))
        \<and> (0 < card (set (somes (cap_categories tie xs))) \<longrightarrow>
              Suc (length (dummies n (cap_categories tie xs)))
                = card (set (somes (cap_categories tie xs))))" for n xs
    using small [of xs] big [of xs] count [of "cap_categories tie xs" n]
      dummies_eq [of n "cap_categories tie xs"]
    by blast
  show ?thesis
    unfolding if_not_P [OF False]
  proof (intro exI [of _ ?out] conjI)
    show "encode_categorical_variables tie df ps = Inr ?out" by (rule out)
    show "nrows ?out = nrows df" by simp
    show "cols ?out = ?cols" by simp
    show "\<forall>(n, d) \<in> set (cols df). n \<in> ?ex \<or> (\<exists>xs. d = NumCol xs) \<longrightarrow> get_col ?out n = Inr d"
      using pass by blast
  qed (use each in blast)
qed

theorem encode_categorical_variables_spec_witness:
  "\<exists>out. encode_categorical_variables later_first device_table
            (no_params\<lparr>encoding_exclude := Some [''tag'']\<rparr>) = Inr out
     \<and> nrows out = 12
     \<and> cols out =
       [(''amt'', NumCol [Some 1, Some 2, Some 3, Some 4, Some 5, Some 6, Some 7, Some 8, Some 9, Some 10, Some 11, Some 12]),
        (''tag'', ObjectCol [Some ''p'', Some ''q'', Some ''p'', Some ''q'', Some ''p'', Some ''q'', Some ''p'', Some ''q'', Some ''p'', Some ''q'', Some ''p'', Some ''q'']),
        (''dev_c'', NumCol [Some 0, Some 0, Some 1, Some 0, Some 0, Some 0, Some 0, Some 0, Some 0, Some 0, Some 0, Some 0]),
        (''dev_d'', NumCol [Some 0, Some 0, Some 0, Some 1, Some 0, Some 0, Some 0, Some 0, Some 0, Some 0, Some 0, Some 0]),
        (''dev_e'', NumCol [Some 0, Some 0, Some 0, Some 0, Some 1, Some 0, Some 0, Some 0, Some 0, Some 0, Some 0, Some 0]),
        (''dev_f'', NumCol [Some 0, Some 0, Some 0, Some 0, Some 0, Some 1, Some 0, Some 0, Some 0, Some 0, Some 0, Some 0]),
        (''dev_g'', NumCol [Some 0, Some 0, Some 0, Some 0, Some 0, Some 0, Some 1, Some 0, Some 0, Some 0, Some 0, Some 0]),
        (''dev_h'', NumCol [Some 0, Some 0, Some 0, Some 0, Some 0, Some 0, Some 0, Some 1, Some 0, Some 0, Some 0, Some 0]),
        (''dev_i'', NumCol [Some 0, Some 0, Some 0, Some 0, Some 0, Some 0, Some 0, Some 0, Some 1, Some 0, Some 0, Some 0]),
        (''dev_j'', NumCol [Some 0, Some 0, Some 0, Some 0, Some 0, Some 0, Some 0, Some 0, Some 0, Some 1, Some 0, Some 0]),
        (''dev_k'', NumCol [Some 0, Some 0, Some 0, Some 0, Some 0, Some 0, Some 0, Some 0, Some 0, Some 0, Some 1, Some 0]),
        (''dev_other'', NumCol [Some 0, Some 1, Some 0, Some 0, Some 0, Some 0, Some 0, Some 0, Some 0, Some 0, Some 0, Some 0]),
        (''os_y'', NumCol [Some 0, Some 1, Some 0, Some 1, Some 0, Some 1, Some 0, Some 1, Some 0, Some 1, Some 0, Some 1])]"
proof -
  let ?ps = "no_params\<lparr>encoding_exclude := Some [''tag'']\<rparr>"
  have w: "wf device_table" "cols device_table \<noteq> []"
    by (simp_all add: wf_def device_table_def names_def)
  have ex: "get_or (encoding_exclude ?ps) [] = [''tag'']"
    by (simp add: no_params_def get_or_def)
  have dev: "cap_categories later_first
        [Some ''a'', Some ''b'', Some ''c'', Some ''d'', Some ''e'', Some ''f'',
         Some ''g'', Some ''h'', Some ''i'', Some ''j'', Some ''k'', Some ''a'']
      = [Some ''a'', Some ''other'', Some ''c'', Some ''d'', Some ''e'', Some ''f'',
         Some ''g'', Some ''h'', Some ''i'', Some ''j'', Some ''k'', Some ''a'']"
    by (simp add: cap_categories_def nunique_def somes_def value_counts_def later_first_def)
  have os: "cap_categories later_first
        [Some ''x'', Some ''y'', Some ''x'', Some ''y'', Some ''x'', Some ''y'',
         Some ''x'', Some ''y'', Some ''x'', Some ''y'', Some ''x'', Some ''y'']
      = [Some ''x'', Some ''y'', Some ''x'', Some ''y'', Some ''x'', Some ''y'',
         Some ''x'', Some ''y'', Some ''x'', Some ''y'', Some ''x'', Some ''y'']"
    by (simp add: cap_categories_def nunique_def somes_def)
  from encode_categorical_variables_spec [OF w(1), of later_first ?ps] show ?thesis
    unfolding if_not_P [OF w(2)] ex
  proof (elim exE conjE)
    fix out
    assume ret: "encode_categorical_variables later_first device_table ?ps = Inr out"
      and rows: "nrows out = nrows device_table"
      and cls: "cols out =
        filter (\<lambda>(n, d). n \<in> set [''tag'']
                  \<or> (case d of NumCol xs \<Rightarrow> True | ObjectCol xs \<Rightarrow> False)) (cols device_table)
        @ concat (map (\<lambda>(n, d). case d of
              ObjectCol xs \<Rightarrow> if n \<in> set [''tag''] then []
                             else dummies n (cap_categories later_first xs)
            | NumCol xs \<Rightarrow> []) (cols device_table))"
    have "cols out =
       [(''amt'', NumCol [Some 1, Some 2, Some 3, Some 4, Some 5, Some 6, Some 7, Some 8, Some 9, Some 10, Some 11, Some 12]),
        (''tag'', ObjectCol [Some ''p'', Some ''q'', Some ''p'', Some ''q'', Some ''p'', Some ''q'', Some ''p'', Some ''q'', Some ''p'', Some ''q'', Some ''p'', Some ''q'']),
        (''dev_c'', NumCol [Some 0, Some 0, Some 1, Some 0, Some 0, Some 0, Some 0, Some 0, Some 0, Some 0, Some 0, Some 0]),
        (''dev_d'', NumCol [Some 0, Some 0, Some 0, Some 1, Some 0, Some 0, Some 0, Some 0, Some 0, Some 0, Some 0, Some 0]),
        (''dev_e'', NumCol [Some 0, Some 0, Some 0, Some 0, Some 1, Some 0, Some 0, Some 0, Some 0, Some 0, Some 0, Some 0]),
        (''dev_f'', NumCol [Some 0, Some 0, Some 0, Some 0, Some 0, Some 1, Some 0, Some 0, Some 0, Some 0, Some 0, Some 0]),
        (''dev_g'', NumCol [Some 0, Some 0, Some 0, Some 0, Some 0, Some 0, Some 1, Some 0, Some 0, Some 0, Some 0, Some 0]),
        (''dev_h'', NumCol [Some 0, Some 0, Some 0, Some 0, Some 0, Some 0, Some 0, Some 1, Some 0, Some 0, Some 0, Some 0]),
        (''dev_i'', NumCol [Some 0, Some 0, Some 0, Some 0, Some 0, Some 0, Some 0, Some 0, Some 1, Some 0, Some 0, Some 0]),
        (''dev_j'', NumCol [Some 0, Some 0, Some 0, Some 0, Some 0, Some 0, Some 0, Some 0, Some 0, Some 1, Some 0, Some 0]),
        (''dev_k'', NumCol [Some 0, Some 0, Some 0, Some 0, Some 0, Some 0, Some 0, Some 0, Some 0, Some 0, Some 1, Some 0]),
        (''dev_other'', NumCol [Some 0, Some 1, Some 0, Some 0, Some 0, Some 0, Some 0, Some 0, Some 0, Some 0, Some 0, Some 0]),
        (''os_y'', NumCol [Some 0, Some 1, Some 0, Some 1, Some 0, Some 1, Some 0, Some 1, Some 0, Some 1, Some 0, Some 1])]"
      unfolding cls by (simp add: device_table_def dev os) (simp add: dummies_def somes_def)
    with ret rows show ?thesis
      by (intro exI [of _ out]) (simp add: device_table_def)
  qed
qed

end
